theory Spec2Isabelle
  imports Complex_Main
begin

section \<open>JavaScript strings\<close>

text \<open>
  A JavaScript string is a sequence of UTF-16 code units and \<open>length\<close> counts code
  units. The model uses \<^typ>\<open>string\<close>, one \<^typ>\<open>char\<close> per code unit, for the code units
  below 256 (ASCII and Latin-1). In that range the white space of \<open>String.prototype.trim\<close>
  and of the regular expression class \<open>\s\<close> is TAB, LF, VT, FF, CR, SPACE and NBSP.
\<close>

definition isWhiteSpace :: "char \<Rightarrow> bool" where
  "isWhiteSpace c =
     (c \<in> set [CHR 0x09, CHR 0x0A, CHR 0x0B, CHR 0x0C, CHR 0x0D, CHR 0x20, CHR 0xA0])"

definition trim :: "string \<Rightarrow> string" where
  "trim s = rev (dropWhile isWhiteSpace (rev (dropWhile isWhiteSpace s)))"

definition startsWith :: "string \<Rightarrow> string \<Rightarrow> bool" where
  "startsWith s p = (take (length p) s = p)"

definition endsWith :: "string \<Rightarrow> string \<Rightarrow> bool" where
  "endsWith s p = (length p \<le> length s \<and> drop (length s - length p) s = p)"

text \<open>\<open>s.indexOf(p)\<close>: the position of the first occurrence, \<open>None\<close> for JavaScript's -1.\<close>

fun indexOf :: "string \<Rightarrow> string \<Rightarrow> nat option" where
  "indexOf [] p = (if p = [] then Some 0 else None)"
| "indexOf (c # cs) p =
     (if startsWith (c # cs) p then Some 0 else map_option Suc (indexOf cs p))"

definition includesStr :: "string \<Rightarrow> string \<Rightarrow> bool" where
  "includesStr s p = (indexOf s p \<noteq> None)"

text \<open>\<open>s.split(d)\<close> for a one-character separator; the empty string splits into \<open>[""]\<close>.\<close>

fun split :: "char \<Rightarrow> string \<Rightarrow> string list" where
  "split d [] = [[]]"
| "split d (c # cs) =
     (if c = d then [] # split d cs
      else (case split d cs of [] \<Rightarrow> [[c]] | x # xs \<Rightarrow> (c # x) # xs))"

text \<open>
  Case conversion. \<open>isUpperLatin1\<close> holds for \<open>A\<close>..\<open>Z\<close> and for the upper-case letters
  of Latin-1 (0xC0..0xDE without the multiplication sign 0xD7); \<open>toLowerCase\<close> adds 0x20
  to exactly those code units, which is setting bit 5. The flag \<open>i\<close> of a regular expression
  whose pattern is ASCII compares code units up to the case of \<open>A\<close>..\<open>Z\<close> only.
\<close>

definition isUpperAscii :: "char \<Rightarrow> bool" where
  "isUpperAscii c = (65 \<le> (of_char c :: nat) \<and> (of_char c :: nat) \<le> 90)"

definition isLowerAscii :: "char \<Rightarrow> bool" where
  "isLowerAscii c = (97 \<le> (of_char c :: nat) \<and> (of_char c :: nat) \<le> 122)"

definition isUpperLatin1 :: "char \<Rightarrow> bool" where
  "isUpperLatin1 c =
     (isUpperAscii c \<or>
      (192 \<le> (of_char c :: nat) \<and> (of_char c :: nat) \<le> 222 \<and> (of_char c :: nat) \<noteq> 215))"

fun setBit5 :: "bool \<Rightarrow> char \<Rightarrow> char" where
  "setBit5 b (Char b0 b1 b2 b3 b4 b5 b6 b7) = Char b0 b1 b2 b3 b4 b b6 b7"

definition asciiLower :: "char \<Rightarrow> char" where
  "asciiLower c = (if isUpperAscii c then setBit5 True c else c)"

definition asciiUpper :: "char \<Rightarrow> char" where
  "asciiUpper c = (if isLowerAscii c then setBit5 False c else c)"

definition toLowerCase :: "string \<Rightarrow> string" where
  "toLowerCase s = map (\<lambda>c. if isUpperLatin1 c then setBit5 True c else c) s"

definition startsWithCI :: "string \<Rightarrow> string \<Rightarrow> bool" where
  "startsWithCI s p = (map asciiLower (take (length p) s) = map asciiLower p)"

section \<open>Response Cleaner (aiService.ts, cleanAIResponse)\<close>

text \<open>
  \<open>textToClean.match(/^<think>([\s\S]*)<\/think>$/)\<close>: the pattern is anchored at both
  ends and its group matches any text, so it matches exactly when the string starts with
  the opening tag and what follows the tag ends with the closing tag; the group is the text
  between the two. The result is the group.
\<close>

definition thinkMatch :: "string \<Rightarrow> string option" where
  "thinkMatch s =
     (if startsWith s ''<think>'' \<and> endsWith (drop 7 s) ''</think>''
      then Some (take (length s - 15) (drop 7 s)) else None)"

text \<open>
  \<open>replace(/<think>[\s\S]*?<\/think>/g, '')\<close>: scanning from the left, an opening tag that
  has a closing tag somewhere after it is removed together with everything up to the
  first such closing tag, and the scan goes on behind it. \<open>findClose s\<close> is the text behind
  the first closing tag of \<open>s\<close>.
\<close>

fun findClose :: "string \<Rightarrow> string option" where
  "findClose [] = None"
| "findClose (c # cs) =
     (if startsWith (c # cs) ''</think>'' then Some (drop 8 (c # cs)) else findClose cs)"

lemma findClose_length: "findClose s = Some r \<Longrightarrow> length r \<le> length s"
  by (induction s) (auto split: if_splits)

function removeThinkBlocks :: "string \<Rightarrow> string" where
  "removeThinkBlocks [] = []"
| "removeThinkBlocks (c # cs) =
     (if startsWith (c # cs) ''<think>'' then
        (case findClose (drop 7 (c # cs)) of
           Some rest \<Rightarrow> removeThinkBlocks rest
         | None \<Rightarrow> c # removeThinkBlocks cs)
      else c # removeThinkBlocks cs)"
  by pat_completeness auto
termination
proof (relation "measure length")
  fix c :: char and cs rest :: string
  assume "findClose (drop 7 (c # cs)) = Some rest"
  then have "length rest \<le> length (drop 7 (c # cs))"
    by (rule findClose_length)
  then show "(rest, c # cs) \<in> measure length"
    by simp
qed simp_all

text \<open>The two pattern sets of the cleaner, in the order of the alternatives.\<close>

definition labelPrefixes :: "string list" where
  "labelPrefixes =
     [''Title:'', ''Generated title:'', ''Suggested title:'', ''The title:'', ''A title:'',
      ''Here'' @ [CHR 0x27] @ ''s the title:'']"

definition preamblePrefixes :: "string list" where
  "preamblePrefixes =
     labelPrefixes @ [''Sure, here'', ''I'' @ [CHR 0x27] @ ''ll'', ''I would'', ''Based on'']"

definition matchesPreamble :: "string \<Rightarrow> bool" where
  "matchesPreamble line = list_ex (startsWithCI line) preamblePrefixes"

text \<open>The \<open>for\<close> loop over the lines: the first line without conversational filler.\<close>

fun firstNonPreamble :: "string list \<Rightarrow> string" where
  "firstNonPreamble [] = []"
| "firstNonPreamble (line # rest) =
     (if \<not> matchesPreamble line then line else firstNonPreamble rest)"

text \<open>
  \<open>replace(/^(Title:|...|Here's the title:)\s*/i, '')\<close>: the first alternative that is a
  prefix is removed together with the white space behind it.
\<close>

fun stripLabel :: "string list \<Rightarrow> string \<Rightarrow> string" where
  "stripLabel [] s = s"
| "stripLabel (p # ps) s =
     (if startsWithCI s p then dropWhile isWhiteSpace (drop (length p) s)
      else stripLabel ps s)"

definition isQuote :: "char \<Rightarrow> bool" where
  "isQuote c = (c = CHR 0x22 \<or> c = CHR 0x27)"

definition cleanLines :: "string \<Rightarrow> string list" where
  "cleanLines textToClean =
     filter (\<lambda>line. length line > 0) (map trim (split CHR 0x0A textToClean))"

definition selectCandidate :: "string list \<Rightarrow> string" where
  "selectCandidate lines =
     (let bestCandidate = firstNonPreamble lines
      in if bestCandidate = [] \<and> length lines > 0 then hd lines else bestCandidate)"

definition polish :: "string \<Rightarrow> string" where
  "polish bestCandidate = trim (filter (\<lambda>c. \<not> isQuote c) (stripLabel labelPrefixes bestCandidate))"

definition cleanAIResponse :: "string \<Rightarrow> string" where
  "cleanAIResponse response =
     (if response = [] then []
      else
        let textToClean = trim response;
            textToClean = (case thinkMatch textToClean of
                             Some inner \<Rightarrow> if inner \<noteq> [] then trim inner else textToClean
                           | None \<Rightarrow> textToClean);
            textToClean = trim (removeThinkBlocks textToClean)
        in polish (selectCandidate (cleanLines textToClean)))"

section \<open>String replacement and number printing\<close>

text \<open>
  \<open>s.replace(pattern, replacement)\<close> with a string pattern replaces the first occurrence
  only, and the replacement text is a template: \<open>$$\<close> is a dollar sign, \<open>$&\<close> the matched
  text, \<open>$`\<close> the text before the match and \<open>$'\<close> the text behind it. A string pattern has
  no capture groups, so every other \<open>$\<close> stands for itself.
\<close>

fun getSubstitution :: "string \<Rightarrow> string \<Rightarrow> string \<Rightarrow> string \<Rightarrow> string" where
  "getSubstitution matched preceding following [] = []"
| "getSubstitution matched preceding following [c] = [c]"
| "getSubstitution matched preceding following (c # d # rest) =
     (if c = CHR ''$'' then
        (if d = CHR ''$'' then CHR ''$'' # getSubstitution matched preceding following rest
         else if d = CHR ''&'' then matched @ getSubstitution matched preceding following rest
         else if d = CHR 0x60 then preceding @ getSubstitution matched preceding following rest
         else if d = CHR 0x27 then following @ getSubstitution matched preceding following rest
         else c # getSubstitution matched preceding following (d # rest))
      else c # getSubstitution matched preceding following (d # rest))"

definition replaceStr :: "string \<Rightarrow> string \<Rightarrow> string \<Rightarrow> string" where
  "replaceStr s pat rep =
     (case indexOf s pat of
        None \<Rightarrow> s
      | Some pos \<Rightarrow>
          (let preceding = take pos s; following = drop (pos + length pat) s
           in preceding @ getSubstitution pat preceding following rep @ following))"

text \<open>
  \<open>n.toString()\<close> of an integer is its decimal numeral as long as the integer is at
  most \<open>2^53\<close> in magnitude, which is the range of the model; above that JavaScript
  prints the shortest numeral that reads back as the same number, and from \<open>10^21\<close> on
  the exponent form.
\<close>

definition digitChar :: "nat \<Rightarrow> char" where
  "digitChar d = ''0123456789'' ! d"

fun natToString :: "nat \<Rightarrow> string" where
  "natToString n =
     (if n < 10 then [digitChar n] else natToString (n div 10) @ [digitChar (n mod 10)])"

declare natToString.simps [simp del]

definition toString :: "int \<Rightarrow> string" where
  "toString i = (if i < 0 then CHR ''-'' # natToString (nat (- i)) else natToString (nat i))"

text \<open>\<open>s.slice(0, e)\<close>: a negative end counts from the end of the string.\<close>

definition slice0 :: "string \<Rightarrow> int \<Rightarrow> string" where
  "slice0 s e = (if e < 0 then take (nat (int (length s) + e)) s else take (nat e) s)"

section \<open>Numbers, JSON values and exceptions\<close>

text \<open>
  A JavaScript number is a real number, an infinity or NaN; the comparisons below are the
  ones the code makes against its constants, and every comparison with NaN is false.
\<close>

datatype jsnumber = NaN | PosInf | NegInf | Fin real

fun numLess :: "jsnumber \<Rightarrow> real \<Rightarrow> bool" where
  "numLess (Fin r) c = (r < c)"
| "numLess NegInf c = True"
| "numLess PosInf c = False"
| "numLess NaN c = False"

fun numGreater :: "jsnumber \<Rightarrow> real \<Rightarrow> bool" where
  "numGreater (Fin r) c = (r > c)"
| "numGreater PosInf c = True"
| "numGreater NegInf c = False"
| "numGreater NaN c = False"

fun numGreaterEq :: "jsnumber \<Rightarrow> real \<Rightarrow> bool" where
  "numGreaterEq (Fin r) c = (r \<ge> c)"
| "numGreaterEq PosInf c = True"
| "numGreaterEq NegInf c = False"
| "numGreaterEq NaN c = False"

fun isInteger :: "jsnumber \<Rightarrow> bool" where
  "isInteger (Fin r) = (of_int \<lfloor>r\<rfloor> = r)"
| "isInteger PosInf = False"
| "isInteger NegInf = False"
| "isInteger NaN = False"

text \<open>
  The value of an expression of type \<open>any\<close>: parsed JSON, and \<open>undefined\<close> for what a
  missing property reads as. An object is an association list (the first binding of a
  key is the one read).
\<close>

datatype json =
    JUndefined
  | JNull
  | JBool bool
  | JNum jsnumber
  | JStr string
  | JArr "json list"
  | JObj "(string \<times> json) list"

text \<open>
  What a \<open>throw\<close> or a rejected promise carries. The code itself throws \<open>Error\<close> objects,
  the runtime throws \<open>TypeError\<close>, the validation service throws \<open>TitleGeneratorError\<close>
  (message, code, user message); the transport may reject a request with any value at
  all, which is \<open>Thrown\<close>.
\<close>

datatype exn =
    Error string
  | TypeError
  | TitleGeneratorError string string string
  | Thrown json

definition bindE :: "exn + 'a \<Rightarrow> ('a \<Rightarrow> exn + 'b) \<Rightarrow> exn + 'b" where
  "bindE r f = (case r of Inl e \<Rightarrow> Inl e | Inr v \<Rightarrow> f v)"

fun truthy :: "json \<Rightarrow> bool" where
  "truthy JUndefined = False"
| "truthy JNull = False"
| "truthy (JBool b) = b"
| "truthy (JNum n) = (n \<noteq> NaN \<and> n \<noteq> Fin 0)"
| "truthy (JStr s) = (s \<noteq> [])"
| "truthy (JArr xs) = True"
| "truthy (JObj kvs) = True"

fun isNullish :: "json \<Rightarrow> bool" where
  "isNullish JUndefined = True"
| "isNullish JNull = True"
| "isNullish v = False"

fun isArray :: "json \<Rightarrow> bool" where
  "isArray (JArr xs) = True"
| "isArray v = False"

text \<open>
  \<open>v.name\<close> for a data property: reading a property of \<open>null\<close> or \<open>undefined\<close> throws a
  TypeError, an object yields the bound value, and every other value has no such
  property.
\<close>

fun getProp :: "json \<Rightarrow> string \<Rightarrow> exn + json" where
  "getProp JUndefined name = Inl TypeError"
| "getProp JNull name = Inl TypeError"
| "getProp (JObj kvs) name = Inr (case map_of kvs name of Some v \<Rightarrow> v | None \<Rightarrow> JUndefined)"
| "getProp v name = Inr JUndefined"

text \<open>\<open>v[0]\<close>: the first element of an array, the first character of a string.\<close>

fun getIndex0 :: "json \<Rightarrow> exn + json" where
  "getIndex0 JUndefined = Inl TypeError"
| "getIndex0 JNull = Inl TypeError"
| "getIndex0 (JArr xs) = Inr (case xs of [] \<Rightarrow> JUndefined | x # rest \<Rightarrow> x)"
| "getIndex0 (JStr s) = Inr (case s of [] \<Rightarrow> JUndefined | c # rest \<Rightarrow> JStr [c])"
| "getIndex0 (JObj kvs) = Inr (case map_of kvs ''0'' of Some v \<Rightarrow> v | None \<Rightarrow> JUndefined)"
| "getIndex0 v = Inr JUndefined"

text \<open>\<open>v?.name\<close> and \<open>v?.[0]\<close>: \<open>undefined\<close> when \<open>v\<close> is \<open>null\<close> or \<open>undefined\<close>.\<close>

definition optChain :: "json \<Rightarrow> (json \<Rightarrow> exn + json) \<Rightarrow> exn + json" where
  "optChain v f = (if isNullish v then Inr JUndefined else f v)"

text \<open>\<open>v.trim()\<close>: only a string has the method; calling what is not a function throws.\<close>

fun callTrim :: "json \<Rightarrow> exn + json" where
  "callTrim (JStr s) = Inr (JStr (trim s))"
| "callTrim v = Inl TypeError"

text \<open>\<open>v.find(p)\<close>: only an array has the method; the predicate itself may throw.\<close>

fun findJ :: "(json \<Rightarrow> exn + bool) \<Rightarrow> json list \<Rightarrow> exn + json" where
  "findJ p [] = Inr JUndefined"
| "findJ p (x # xs) = bindE (p x) (\<lambda>b. if b then Inr x else findJ p xs)"

fun callFind :: "json \<Rightarrow> (json \<Rightarrow> exn + bool) \<Rightarrow> exn + json" where
  "callFind (JArr xs) p = findJ p xs"
| "callFind v p = Inl TypeError"

text \<open>\<open>v ?? ''\<close> at the end of the extraction chains, whose value is a string or nullish.\<close>

fun orEmpty :: "json \<Rightarrow> string" where
  "orEmpty (JStr s) = s"
| "orEmpty v = []"

text \<open>The operator \<open>typeof\<close>.\<close>

fun typeOf :: "json \<Rightarrow> string" where
  "typeOf JUndefined = ''undefined''"
| "typeOf JNull = ''object''"
| "typeOf (JBool b) = ''boolean''"
| "typeOf (JNum n) = ''number''"
| "typeOf (JStr s) = ''string''"
| "typeOf (JArr xs) = ''object''"
| "typeOf (JObj kvs) = ''object''"

text \<open>\<open>v.trim()\<close> where the code goes on with the text: the trimmed string, or a TypeError.\<close>

fun trimOf :: "json \<Rightarrow> exn + string" where
  "trimOf (JStr s) = Inr (trim s)"
| "trimOf v = Inl TypeError"

text \<open>
  \<open>error.message\<close> for what was caught. The text of a runtime TypeError is set by the
  engine; the model fixes one. A thrown value that is no error object is read like any
  other value.
\<close>

fun errorMessage :: "exn \<Rightarrow> exn + json" where
  "errorMessage (Error m) = Inr (JStr m)"
| "errorMessage TypeError = Inr (JStr ''TypeError'')"
| "errorMessage (TitleGeneratorError m code userMessage) = Inr (JStr m)"
| "errorMessage (Thrown v) = getProp v ''message''"

text \<open>
  \<open>m.includes(text)\<close>: a string searches for the text, an array for an element equal to
  it; no other value has the method.
\<close>

fun callIncludes :: "json \<Rightarrow> string \<Rightarrow> exn + bool" where
  "callIncludes (JStr s) t = Inr (includesStr s t)"
| "callIncludes (JArr xs) t = Inr (JStr t \<in> set xs)"
| "callIncludes v t = Inl TypeError"

section \<open>Settings (types.ts, TitleGeneratorSettings)\<close>

text \<open>
  The fields the generation core and the validation service read. The provider is the
  tag string itself, so that a tag outside \<open>'openai' | 'anthropic' | 'google'\<close> is a value
  of the model as it is a value at run time. The two length settings are integers: the
  settings tab stores the result of \<open>parseInt\<close>, of any sign.
\<close>

record TitleGeneratorSettings =
  aiProvider :: string
  openAiApiKey :: string
  anthropicApiKey :: string
  googleApiKey :: string
  openAiModel :: string
  anthropicModel :: string
  googleModel :: string
  googleThinkingLevel :: string
  anthropicThinkingEnabled :: bool
  anthropicThinkingBudget :: int
  lowerCaseTitles :: bool
  removeForbiddenChars :: bool
  customPrompt :: string
  temperature :: jsnumber
  maxTitleLength :: int
  maxContentLength :: int
  refinePrompt :: string

section \<open>Validation Service (validation.ts)\<close>

record ValidationResult =
  valid :: bool
  errors :: "string list"
  warnings :: "string list"

definition emptyResult :: ValidationResult where
  "emptyResult = \<lparr>valid = True, errors = [], warnings = []\<rparr>"

definition pushError :: "string \<Rightarrow> ValidationResult \<Rightarrow> ValidationResult" where
  "pushError m r = r\<lparr>valid := False, errors := errors r @ [m]\<rparr>"

definition pushWarning :: "string \<Rightarrow> ValidationResult \<Rightarrow> ValidationResult" where
  "pushWarning m r = r\<lparr>warnings := warnings r @ [m]\<rparr>"

text \<open>\<open>if (c) { result.valid = false; result.errors.push(m); }\<close> and its warning twin.\<close>

definition errorIf :: "bool \<Rightarrow> string \<Rightarrow> ValidationResult \<Rightarrow> ValidationResult" where
  "errorIf c m r = (if c then pushError m r else r)"

definition warnIf :: "bool \<Rightarrow> string \<Rightarrow> ValidationResult \<Rightarrow> ValidationResult" where
  "warnIf c m r = (if c then pushWarning m r else r)"

text \<open>The constants of constants.ts that the service reads.\<close>

definition API_KEY_MIN_LENGTH :: nat where "API_KEY_MIN_LENGTH = 10"
definition API_KEY_MAX_LENGTH :: nat where "API_KEY_MAX_LENGTH = 200"
definition MODEL_NAME_MIN_LENGTH :: nat where "MODEL_NAME_MIN_LENGTH = 1"
definition MODEL_NAME_MAX_LENGTH :: nat where "MODEL_NAME_MAX_LENGTH = 100"
definition PROMPT_MIN_LENGTH :: nat where "PROMPT_MIN_LENGTH = 10"
definition PROMPT_MAX_LENGTH :: nat where "PROMPT_MAX_LENGTH = 1000"
definition REFINE_PROMPT_MIN_LENGTH :: nat where "REFINE_PROMPT_MIN_LENGTH = 10"
definition REFINE_PROMPT_MAX_LENGTH :: nat where "REFINE_PROMPT_MAX_LENGTH = 1000"
definition REQUIRED_PLACEHOLDER :: string where "REQUIRED_PLACEHOLDER = ''{max_length}''"
definition REQUIRED_PLACEHOLDERS :: "string list" where
  "REQUIRED_PLACEHOLDERS = [''{max_length}'', ''{title}'']"
definition MIN_TEMPERATURE :: real where "MIN_TEMPERATURE = 0"
definition MAX_TEMPERATURE :: real where "MAX_TEMPERATURE = 1"
definition MIN_MAX_LENGTH :: int where "MIN_MAX_LENGTH = 10"
definition MAX_MAX_LENGTH :: int where "MAX_MAX_LENGTH = 500"
definition MIN_MAX_CONTENT_LENGTH :: int where "MIN_MAX_CONTENT_LENGTH = 100"
definition MAX_MAX_CONTENT_LENGTH :: int where "MAX_MAX_CONTENT_LENGTH = 10000"
definition FALLBACK_TITLE :: string where "FALLBACK_TITLE = ''Untitled''"

text \<open>
  The validators are called with values of any kind at run time, so their arguments are
  JSON values here. A guard of the form \<open>!v || typeof v !== 'string'\<close> is what keeps the
  method calls behind it from throwing. The \<open>switch\<close> on the provider compares with
  \<open>===\<close>.
\<close>

definition validateApiKey :: "json \<Rightarrow> json \<Rightarrow> exn + ValidationResult" where
  "validateApiKey apiKey provider =
     (if \<not> truthy apiKey \<or> typeOf apiKey \<noteq> ''string'' then
        Inr (pushError ''API key is required'' emptyResult)
      else
        bindE (trimOf apiKey) (\<lambda>trimmedKey.
          if length trimmedKey = 0 then Inr (pushError ''API key cannot be empty'' emptyResult)
          else
            let result = errorIf (length trimmedKey < API_KEY_MIN_LENGTH)
                   (''API key must be at least '' @ toString (int API_KEY_MIN_LENGTH)
                      @ '' characters long'') emptyResult;
                result = errorIf (length trimmedKey > API_KEY_MAX_LENGTH)
                   (''API key must be no more than '' @ toString (int API_KEY_MAX_LENGTH)
                      @ '' characters long'') result
            in Inr (if provider = JStr ''openai'' then
                      warnIf (\<not> startsWith trimmedKey ''sk-'')
                        ''OpenAI API keys typically start with \"sk-\"'' result
                    else if provider = JStr ''anthropic'' then
                      warnIf (\<not> startsWith trimmedKey ''sk-ant-'')
                        ''Anthropic API keys typically start with \"sk-ant-\"'' result
                    else if provider = JStr ''google'' then
                      warnIf (length trimmedKey < 20)
                        ''Google API keys are typically longer than 20 characters'' result
                    else result)))"

definition validateModelName :: "json \<Rightarrow> json \<Rightarrow> exn + ValidationResult" where
  "validateModelName modelName provider =
     (if \<not> truthy modelName \<or> typeOf modelName \<noteq> ''string'' then
        Inr (pushError ''Model name is required'' emptyResult)
      else
        bindE (trimOf modelName) (\<lambda>trimmedName.
          if length trimmedName = 0 then Inr (pushError ''Model name cannot be empty'' emptyResult)
          else
            let result = errorIf (length trimmedName < MODEL_NAME_MIN_LENGTH)
                   (''Model name must be at least '' @ toString (int MODEL_NAME_MIN_LENGTH)
                      @ '' character long'') emptyResult;
                result = errorIf (length trimmedName > MODEL_NAME_MAX_LENGTH)
                   (''Model name must be no more than '' @ toString (int MODEL_NAME_MAX_LENGTH)
                      @ '' characters long'') result
            in Inr (if provider = JStr ''openai'' then
                      warnIf (\<not> includesStr trimmedName ''gpt'')
                        ''OpenAI models typically contain \"gpt\" in the name'' result
                    else if provider = JStr ''anthropic'' then
                      warnIf (\<not> includesStr trimmedName ''claude'')
                        ''Anthropic models typically contain \"claude\" in the name'' result
                    else if provider = JStr ''google'' then
                      warnIf (\<not> includesStr trimmedName ''gemini'')
                        ''Google models typically contain \"gemini\" in the name'' result
                    else result)))"

text \<open>The \<open>for\<close> loop over the required placeholders of the refinement prompt.\<close>

fun checkPlaceholders :: "string \<Rightarrow> string list \<Rightarrow> ValidationResult \<Rightarrow> ValidationResult" where
  "checkPlaceholders trimmedPrompt [] result = result"
| "checkPlaceholders trimmedPrompt (placeholder # rest) result =
     checkPlaceholders trimmedPrompt rest
       (errorIf (\<not> includesStr trimmedPrompt placeholder)
          (''Refinement prompt must contain placeholder: '' @ placeholder) result)"

text \<open>
  The second parameter has the default \<open>false\<close>, which stands in for \<open>undefined\<close> only; the
  code tests the parameter for truthiness.
\<close>

definition validatePrompt :: "json \<Rightarrow> json \<Rightarrow> exn + ValidationResult" where
  "validatePrompt prompt isRefinementPrompt =
     (if \<not> truthy prompt \<or> typeOf prompt \<noteq> ''string'' then
        Inr (pushError ''Prompt is required'' emptyResult)
      else
        bindE (trimOf prompt) (\<lambda>trimmedPrompt.
          if length trimmedPrompt = 0 then Inr (pushError ''Prompt cannot be empty'' emptyResult)
          else
            let minLength = (if truthy isRefinementPrompt then REFINE_PROMPT_MIN_LENGTH
                             else PROMPT_MIN_LENGTH);
                maxLength = (if truthy isRefinementPrompt then REFINE_PROMPT_MAX_LENGTH
                             else PROMPT_MAX_LENGTH);
                result = errorIf (length trimmedPrompt < minLength)
                   (''Prompt must be at least '' @ toString (int minLength)
                      @ '' characters long'') emptyResult;
                result = errorIf (length trimmedPrompt > maxLength)
                   (''Prompt must be no more than '' @ toString (int maxLength)
                      @ '' characters long'') result
            in Inr (if truthy isRefinementPrompt then
                      checkPlaceholders trimmedPrompt REQUIRED_PLACEHOLDERS result
                    else
                      errorIf (\<not> includesStr trimmedPrompt REQUIRED_PLACEHOLDER)
                        (''Prompt must contain placeholder: '' @ REQUIRED_PLACEHOLDER) result)))"

text \<open>
  The numeric validators test \<open>typeof v !== 'number' || isNaN(v)\<close> first: only a number
  that is not NaN goes on, and comparing numbers does not throw.
  \<open>MODEL_CONFIG.MIN_TEMPERATURE\<close> and \<open>MAX_TEMPERATURE\<close> are \<open>0.0\<close> and \<open>1.0\<close>, printed as
  \<open>0\<close> and \<open>1\<close> in the messages.
\<close>

definition validateTemperature :: "json \<Rightarrow> exn + ValidationResult" where
  "validateTemperature temperatureValue =
     (case temperatureValue of
        JNum t \<Rightarrow>
          if t = NaN then Inr (pushError ''Temperature must be a number'' emptyResult)
          else
            let result = errorIf (numLess t MIN_TEMPERATURE)
                   ''Temperature must be at least 0'' emptyResult;
                result = errorIf (numGreater t MAX_TEMPERATURE)
                   ''Temperature must be no more than 1'' result
            in Inr (if t = Fin 0 then
                      pushWarning ''Temperature of 0 will produce very predictable results'' result
                    else
                      warnIf (numGreaterEq t (9 / 10))
                        ''High temperature values may produce inconsistent results'' result)
      | other \<Rightarrow> Inr (pushError ''Temperature must be a number'' emptyResult))"

definition validateMaxTitleLength :: "json \<Rightarrow> exn + ValidationResult" where
  "validateMaxTitleLength lengthValue =
     (case lengthValue of
        JNum len \<Rightarrow>
          if len = NaN \<or> \<not> isInteger len then
            Inr (pushError ''Max title length must be a whole number'' emptyResult)
          else
            let result = errorIf (numLess len (of_int MIN_MAX_LENGTH))
                   (''Max title length must be at least '' @ toString MIN_MAX_LENGTH) emptyResult;
                result = errorIf (numGreater len (of_int MAX_MAX_LENGTH))
                   (''Max title length must be no more than '' @ toString MAX_MAX_LENGTH) result
            in Inr (if numLess len 30 then
                      pushWarning ''Short titles may not be descriptive enough'' result
                    else
                      warnIf (numGreater len 100)
                        ''Long titles may not be suitable for all file systems'' result)
      | other \<Rightarrow> Inr (pushError ''Max title length must be a whole number'' emptyResult))"

definition validateMaxContentLength :: "json \<Rightarrow> exn + ValidationResult" where
  "validateMaxContentLength lengthValue =
     (case lengthValue of
        JNum len \<Rightarrow>
          if len = NaN \<or> \<not> isInteger len then
            Inr (pushError ''Max content length must be a whole number'' emptyResult)
          else
            let result = errorIf (numLess len (of_int MIN_MAX_CONTENT_LENGTH))
                   (''Max content length must be at least '' @ toString MIN_MAX_CONTENT_LENGTH)
                   emptyResult;
                result = errorIf (numGreater len (of_int MAX_MAX_CONTENT_LENGTH))
                   (''Max content length must be no more than ''
                      @ toString MAX_MAX_CONTENT_LENGTH) result
            in Inr (if numLess len 500 then
                      pushWarning
                        ''Very short content may not provide enough context for good titles''
                        result
                    else
                      warnIf (numGreater len 5000)
                        ''Very long content may increase API costs significantly'' result)
      | other \<Rightarrow> Inr (pushError ''Max content length must be a whole number'' emptyResult))"

text \<open>
  \<open>provider.toUpperCase()\<close> in the messages of \<open>validateSettings\<close>; it is reached for the
  three ASCII provider tags only.
\<close>

definition toUpperCaseAscii :: "string \<Rightarrow> string" where
  "toUpperCaseAscii s = map asciiUpper s"

text \<open>
  The two private field-name lookups throw for a tag outside the enumeration;
  \<open>settingsField\<close> is the indexed read \<open>settings[field]\<close> of the six fields they name.
\<close>

definition unknownProvider :: "string \<Rightarrow> exn" where
  "unknownProvider provider =
     TitleGeneratorError (''Unknown provider: '' @ provider) ''UNKNOWN_PROVIDER''
       ''Unknown AI provider''"

definition getApiKeyField :: "string \<Rightarrow> exn + string" where
  "getApiKeyField provider =
     (if provider = ''openai'' then Inr ''openAiApiKey''
      else if provider = ''anthropic'' then Inr ''anthropicApiKey''
      else if provider = ''google'' then Inr ''googleApiKey''
      else Inl (unknownProvider provider))"

definition getModelField :: "string \<Rightarrow> exn + string" where
  "getModelField provider =
     (if provider = ''openai'' then Inr ''openAiModel''
      else if provider = ''anthropic'' then Inr ''anthropicModel''
      else if provider = ''google'' then Inr ''googleModel''
      else Inl (unknownProvider provider))"

definition settingsField :: "TitleGeneratorSettings \<Rightarrow> string \<Rightarrow> string" where
  "settingsField settings field =
     (if field = ''openAiApiKey'' then openAiApiKey settings
      else if field = ''anthropicApiKey'' then anthropicApiKey settings
      else if field = ''googleApiKey'' then googleApiKey settings
      else if field = ''openAiModel'' then openAiModel settings
      else if field = ''anthropicModel'' then anthropicModel settings
      else if field = ''googleModel'' then googleModel settings
      else [])"

text \<open>
  \<open>result.errors.push(...sub.errors); result.warnings.push(...sub.warnings);
  if (!sub.valid) result.valid = false\<close>.
\<close>

definition absorb :: "ValidationResult \<Rightarrow> ValidationResult \<Rightarrow> ValidationResult" where
  "absorb sub r =
     \<lparr>valid = (if \<not> valid sub then False else valid r),
      errors = errors r @ errors sub,
      warnings = warnings r @ warnings sub\<rparr>"

definition validateSettings :: "TitleGeneratorSettings \<Rightarrow> exn + ValidationResult" where
  "validateSettings settings =
     (let provider = aiProvider settings in
      bindE (getApiKeyField provider) (\<lambda>apiKeyField.
      let apiKey = settingsField settings apiKeyField in
      bindE (if apiKey \<noteq> [] then
               bindE (validateApiKey (JStr apiKey) (JStr provider))
                 (\<lambda>apiKeyValidation. Inr (absorb apiKeyValidation emptyResult))
             else Inr (pushError (toUpperCaseAscii provider @ '' API key is required'')
                         emptyResult)) (\<lambda>result.
      bindE (getModelField provider) (\<lambda>modelField.
      let model = settingsField settings modelField in
      bindE (if model \<noteq> [] then
               bindE (validateModelName (JStr model) (JStr provider))
                 (\<lambda>modelValidation. Inr (absorb modelValidation result))
             else Inr (pushError (toUpperCaseAscii provider @ '' model is required'')
                         result)) (\<lambda>result.
      bindE (validatePrompt (JStr (customPrompt settings)) JUndefined) (\<lambda>promptValidation.
      bindE (validatePrompt (JStr (refinePrompt settings)) (JBool True))
        (\<lambda>refinePromptValidation.
      bindE (validateTemperature (JNum (temperature settings))) (\<lambda>temperatureValidation.
      bindE (validateMaxTitleLength (JNum (Fin (of_int (maxTitleLength settings)))))
        (\<lambda>titleLengthValidation.
      bindE (validateMaxContentLength (JNum (Fin (of_int (maxContentLength settings)))))
        (\<lambda>contentLengthValidation.
        Inr (absorb contentLengthValidation
              (absorb titleLengthValidation
                (absorb temperatureValidation
                  (absorb refinePromptValidation
                    (absorb promptValidation result)))))))))))))))"

definition sanitizeInput :: "string \<Rightarrow> string" where
  "sanitizeInput input =
     (if input = [] then []
      else
        let s = filter (\<lambda>c. c \<noteq> CHR ''<'' \<and> c \<noteq> CHR ''>'') input;
            s = concat (map (\<lambda>c. if c = CHR ''&'' then ''&amp;'' else [c]) s);
            s = filter (\<lambda>c. \<not> isQuote c) s
        in trim s)"

text \<open>\<open>TITLE_CONFIG.FORBIDDEN_CHARS\<close>, the class \<open>[<>:"\/\\|?*\x00-\x1F]\<close>.\<close>

definition isForbiddenChar :: "char \<Rightarrow> bool" where
  "isForbiddenChar c =
     (c \<in> set [CHR ''<'', CHR ''>'', CHR '':'', CHR 0x22, CHR ''/'', CHR 0x5C, CHR ''|'',
                CHR ''?'', CHR ''*''] \<or> (of_char c :: nat) < 32)"

text \<open>\<open>replace(/\s+/g, ' ')\<close>: every maximal run of white space becomes one space.\<close>

function collapseWhitespace :: "string \<Rightarrow> string" where
  "collapseWhitespace [] = []"
| "collapseWhitespace (c # cs) =
     (if isWhiteSpace c then CHR '' '' # collapseWhitespace (dropWhile isWhiteSpace cs)
      else c # collapseWhitespace cs)"
  by pat_completeness auto
termination
  by (relation "measure length") (auto simp: length_dropWhile_le less_Suc_eq_le)

text \<open>
  \<open>replace(/^[ .]+|[ .]+$/g, '')\<close>: the leading run and the trailing run of spaces and
  dots are removed.
\<close>

definition isSpaceOrDot :: "char \<Rightarrow> bool" where
  "isSpaceOrDot c = (c = CHR '' '' \<or> c = CHR ''.'')"

definition stripSpacesAndDots :: "string \<Rightarrow> string" where
  "stripSpacesAndDots s = rev (dropWhile isSpaceOrDot (rev (dropWhile isSpaceOrDot s)))"

definition sanitizeFilename :: "string \<Rightarrow> string" where
  "sanitizeFilename filename =
     (if filename = [] then FALLBACK_TITLE
      else
        let safe = filter (\<lambda>c. \<not> isForbiddenChar c) filename;
            safe = trim (collapseWhitespace safe);
            safe = stripSpacesAndDots safe
        in if length safe > 0 then safe else FALLBACK_TITLE)"

text \<open>The predicate \<open>(p) => p.text && !p.thought\<close> of the Google branches.\<close>

definition isTextPart :: "json \<Rightarrow> exn + bool" where
  "isTextPart part =
     bindE (getProp part ''text'') (\<lambda>t.
       if truthy t then bindE (getProp part ''thought'') (\<lambda>th. Inr (\<not> truthy th))
       else Inr False)"

fun arrayLength :: "json \<Rightarrow> nat" where
  "arrayLength (JArr xs) = length xs"
| "arrayLength v = 0"

definition validateApiResponse :: "json \<Rightarrow> string \<Rightarrow> exn + ValidationResult" where
  "validateApiResponse response provider =
     (if \<not> truthy response then Inr (pushError ''API response is empty'' emptyResult)
      else if provider = ''openai'' then
        bindE (getProp response ''choices'') (\<lambda>choices.
          if \<not> truthy choices \<or> \<not> isArray choices \<or> arrayLength choices = 0 then
            Inr (pushError ''Invalid OpenAI response format'' emptyResult)
          else
            bindE (getIndex0 choices) (\<lambda>choice.
            bindE (getProp choice ''message'') (\<lambda>msg.
            bindE (optChain msg (\<lambda>m. getProp m ''content'')) (\<lambda>content.
              Inr (errorIf (\<not> truthy content) ''OpenAI response missing content''
                     emptyResult)))))
      else if provider = ''anthropic'' then
        bindE (getProp response ''content'') (\<lambda>content.
          if \<not> truthy content \<or> \<not> isArray content \<or> arrayLength content = 0 then
            Inr (pushError ''Invalid Anthropic response format'' emptyResult)
          else
            bindE (getIndex0 content) (\<lambda>block.
            bindE (getProp block ''text'') (\<lambda>t.
              Inr (errorIf (\<not> truthy t) ''Anthropic response missing text'' emptyResult))))
      else if provider = ''google'' then
        bindE (getProp response ''candidates'') (\<lambda>candidates.
          if \<not> truthy candidates \<or> \<not> isArray candidates \<or> arrayLength candidates = 0 then
            Inr (pushError ''Invalid Google response format'' emptyResult)
          else
            bindE (getIndex0 candidates) (\<lambda>candidate.
            bindE (getProp candidate ''content'') (\<lambda>content.
            bindE (optChain content (\<lambda>c.
                     bindE (getProp c ''parts'') (\<lambda>parts.
                       optChain parts (\<lambda>ps. callFind ps isTextPart)))) (\<lambda>found.
              Inr (errorIf (\<not> truthy found) ''Google response missing text'' emptyResult)))))
      else Inr emptyResult)"

text \<open>The invariant of a validation result: it is valid exactly when it carries no error.\<close>

definition consistent :: "ValidationResult \<Rightarrow> bool" where
  "consistent r = (valid r = (errors r = []))"

text \<open>A call that returns a valid result, and one that returns an invalid result.\<close>

definition returnsValid :: "exn + ValidationResult \<Rightarrow> bool" where
  "returnsValid x = (case x of Inl e \<Rightarrow> False | Inr r \<Rightarrow> valid r)"

definition returnsInvalid :: "exn + ValidationResult \<Rightarrow> bool" where
  "returnsInvalid x = (case x of Inl e \<Rightarrow> False | Inr r \<Rightarrow> \<not> valid r)"

section \<open>Provider adapters (aiService.ts, callAI)\<close>

text \<open>
  \<open>requestUrl\<close> is the transport collaborator. It is a parameter of the model: a function
  from a request and the state of the outside world to a response, or to the exception
  the request is rejected with, and the next state of the world. The body of a request
  is kept as the JSON value that the code passes to \<open>JSON.stringify\<close>.
\<close>

record request =
  reqUrl :: string
  reqMethod :: string
  reqHeaders :: "(string \<times> string) list"
  reqBody :: json

record response =
  resStatus :: int
  resText :: string
  resJson :: json

type_synonym 'w transport = "request \<Rightarrow> 'w \<Rightarrow> (exn + response) \<times> 'w"

definition userMessages :: "string \<Rightarrow> json" where
  "userMessages prompt = JArr [JObj [(''role'', JStr ''user''), (''content'', JStr prompt)]]"

text \<open>\<open>v?.text?.trim() ?? ''\<close>, the tail of the Anthropic and Google extractions.\<close>

definition extractText :: "json \<Rightarrow> exn + string" where
  "extractText v =
     bindE (optChain v (\<lambda>x. bindE (getProp x ''text'') (\<lambda>t. optChain t callTrim)))
       (\<lambda>r. Inr (orEmpty r))"

text \<open>\<open>data.choices[0]?.message?.content?.trim() ?? ''\<close>.\<close>

definition extractOpenAI :: "json \<Rightarrow> exn + string" where
  "extractOpenAI data =
     bindE (getProp data ''choices'') (\<lambda>choices.
     bindE (getIndex0 choices) (\<lambda>choice.
     bindE (optChain choice (\<lambda>c.
              bindE (getProp c ''message'') (\<lambda>msg.
                optChain msg (\<lambda>m.
                  bindE (getProp m ''content'') (\<lambda>content. optChain content callTrim)))))
       (\<lambda>r. Inr (orEmpty r))))"

definition extractAnthropic :: "json \<Rightarrow> exn + string" where
  "extractAnthropic data =
     bindE (getProp data ''content'') (\<lambda>content.
     bindE (callFind content
              (\<lambda>c. bindE (getProp c ''type'') (\<lambda>ty. Inr (ty = JStr ''text''))))
       extractText)"

definition extractGoogle :: "json \<Rightarrow> exn + string" where
  "extractGoogle data =
     bindE (getProp data ''candidates'') (\<lambda>candidates.
       if \<not> truthy candidates then Inr []
       else
         bindE (getIndex0 candidates) (\<lambda>candidate.
           if \<not> truthy candidate then Inr []
           else
             bindE (getProp candidate ''content'') (\<lambda>content.
               if \<not> truthy content then Inr []
               else
                 bindE (getProp content ''parts'') (\<lambda>parts.
                   if \<not> truthy parts then Inr []
                   else bindE (callFind parts isTextPart) extractText))))"

text \<open>The shared tail of the three adapters: send, check the status, extract the text.\<close>

definition exchange ::
  "'w transport \<Rightarrow> request \<Rightarrow> string \<Rightarrow> (json \<Rightarrow> exn + string) \<Rightarrow> 'w \<Rightarrow> (exn + string) \<times> 'w"
where
  "exchange requestUrl req apiName extract w =
     (case requestUrl req w of
        (Inl e, w') \<Rightarrow> (Inl e, w')
      | (Inr res, w') \<Rightarrow>
          if resStatus res \<noteq> 200 then
            (Inl (Error (apiName @ '' API error ('' @ toString (resStatus res) @ ''): ''
                           @ resText res)), w')
          else (extract (resJson res), w'))"

definition callOpenAI ::
  "'w transport \<Rightarrow> TitleGeneratorSettings \<Rightarrow> string \<Rightarrow> 'w \<Rightarrow> (exn + string) \<times> 'w"
where
  "callOpenAI requestUrl settings prompt w =
     (if openAiApiKey settings = [] then (Inl (Error ''OpenAI API key is not set.''), w)
      else
        let isReasoningModel =
              (startsWith (openAiModel settings) ''o'' \<or> includesStr (openAiModel settings) ''gpt-5'');
            body = JObj ([(''model'', JStr (openAiModel settings)),
                          (''messages'', userMessages prompt)]
                         @ (if \<not> isReasoningModel
                            then [(''temperature'', JNum (temperature settings))] else []))
        in exchange requestUrl
             \<lparr>reqUrl = ''https://api.openai.com/v1/chat/completions'',
              reqMethod = ''POST'',
              reqHeaders = [(''Content-Type'', ''application/json''),
                            (''Authorization'', ''Bearer '' @ openAiApiKey settings)],
              reqBody = body\<rparr>
             ''OpenAI'' extractOpenAI w)"

definition callAnthropic ::
  "'w transport \<Rightarrow> TitleGeneratorSettings \<Rightarrow> string \<Rightarrow> 'w \<Rightarrow> (exn + string) \<times> 'w"
where
  "callAnthropic requestUrl settings prompt w =
     (if anthropicApiKey settings = [] then (Inl (Error ''Anthropic API key is not set.''), w)
      else
        let isReasoningModel =
              (includesStr (anthropicModel settings) ''4-5'' \<or>
               includesStr (anthropicModel settings) ''3-7'');
            body = JObj ([(''model'', JStr (anthropicModel settings)),
                          (''messages'', userMessages prompt),
                          (''max_tokens'', JNum (Fin (if isReasoningModel then 4096 else 1024)))]
                         @ (if isReasoningModel \<and> anthropicThinkingEnabled settings
                            then [(''thinking'',
                                    JObj [(''type'', JStr ''enabled''),
                                          (''budget_tokens'',
                                             JNum (Fin (of_int (anthropicThinkingBudget settings))))]),
                                  (''temperature'', JNum (Fin 1))]
                            else [(''temperature'', JNum (temperature settings))]))
        in exchange requestUrl
             \<lparr>reqUrl = ''https://api.anthropic.com/v1/messages'',
              reqMethod = ''POST'',
              reqHeaders = [(''Content-Type'', ''application/json''),
                            (''x-api-key'', anthropicApiKey settings),
                            (''anthropic-version'', ''2023-06-01'')],
              reqBody = body\<rparr>
             ''Anthropic'' extractAnthropic w)"

definition callGoogle ::
  "'w transport \<Rightarrow> TitleGeneratorSettings \<Rightarrow> string \<Rightarrow> 'w \<Rightarrow> (exn + string) \<times> 'w"
where
  "callGoogle requestUrl settings prompt w =
     (if googleApiKey settings = [] then (Inl (Error ''Google Gemini API key is not set.''), w)
      else
        let generationConfig =
              JObj ([(''temperature'', JNum (temperature settings))]
                    @ (if includesStr (googleModel settings) ''gemini-3'' \<and>
                          googleThinkingLevel settings \<noteq> ''OFF''
                       then [(''thinkingConfig'',
                               JObj [(''thinkingLevel'', JStr (googleThinkingLevel settings))])]
                       else []));
            requestBody =
              JObj [(''contents'', JArr [JObj [(''parts'', JArr [JObj [(''text'', JStr prompt)]])]]),
                    (''generationConfig'', generationConfig)]
        in exchange requestUrl
             \<lparr>reqUrl = ''https://generativelanguage.googleapis.com/v1beta/models/''
                         @ googleModel settings @ '':generateContent?key='' @ googleApiKey settings,
              reqMethod = ''POST'',
              reqHeaders = [(''Content-Type'', ''application/json'')],
              reqBody = requestBody\<rparr>
             ''Google Gemini'' extractGoogle w)"

definition callAI ::
  "'w transport \<Rightarrow> TitleGeneratorSettings \<Rightarrow> string \<Rightarrow> string \<Rightarrow> 'w \<Rightarrow> (exn + string) \<times> 'w"
where
  "callAI requestUrl settings prompt content w =
     (let fullPrompt = trim (prompt @ [CHR 0x0A, CHR 0x0A] @ content) in
      if aiProvider settings = ''openai'' then callOpenAI requestUrl settings fullPrompt w
      else if aiProvider settings = ''anthropic'' then callAnthropic requestUrl settings fullPrompt w
      else if aiProvider settings = ''google'' then callGoogle requestUrl settings fullPrompt w
      else (Inl (Error ''Unsupported AI provider selected.''), w))"

section \<open>Generation orchestrator (aiService.ts, generateTitle)\<close>

definition isConfigurationValid :: "TitleGeneratorSettings \<Rightarrow> bool" where
  "isConfigurationValid settings =
     (if aiProvider settings = ''openai'' then
        (if trim (openAiApiKey settings) = [] then False
         else if openAiModel settings = [] then False
         else True)
      else if aiProvider settings = ''anthropic'' then
        (if trim (anthropicApiKey settings) = [] then False
         else if anthropicModel settings = [] then False
         else True)
      else if aiProvider settings = ''google'' then
        (if trim (googleApiKey settings) = [] then False
         else if googleModel settings = [] then False
         else True)
      else False)"

definition initialPrompt :: "TitleGeneratorSettings \<Rightarrow> string" where
  "initialPrompt settings =
     replaceStr (customPrompt settings) ''{max_length}'' (toString (maxTitleLength settings))"

definition refinementPrompt :: "TitleGeneratorSettings \<Rightarrow> string \<Rightarrow> string" where
  "refinementPrompt settings title =
     replaceStr
       (replaceStr (refinePrompt settings) ''{max_length}'' (toString (maxTitleLength settings)))
       ''{title}'' title"

text \<open>
  Modelled from the spec: \<open>sanitizeFilename\<close> of \<open>utils.ts\<close>, a file that is not among the
  sources. The specification names the forbidden-character sanitation of the Validation
  Service as the one the orchestrator applies.
\<close>

definition utilsSanitizeFilename :: "string \<Rightarrow> string" where
  "utilsSanitizeFilename title = sanitizeFilename title"

text \<open>
  Modelled from the spec: \<open>truncateTitle\<close> of \<open>utils.ts\<close>, a file that is not among the
  sources. The specification describes it as a final hard truncation to the configured
  maximum length; a negative maximum leaves nothing.
\<close>

definition truncateTitle :: "string \<Rightarrow> int \<Rightarrow> string" where
  "truncateTitle title maxLength = take (nat maxLength) title"

definition maxAttempts :: nat where
  "maxAttempts = 3"

text \<open>The test that ends the loop: \<open>title.length > 0 && title.length <= maxTitleLength\<close>.\<close>

definition acceptable :: "TitleGeneratorSettings \<Rightarrow> string \<Rightarrow> bool" where
  "acceptable settings title =
     (length title > 0 \<and> int (length title) \<le> maxTitleLength settings)"

text \<open>
  The attempt loop. Its state is the attempt counter, the title of the previous attempt,
  the calls made so far (prompt and content of each \<open>callAI\<close>) and the outside world. The
  loop ends with the exception of a call, or with the title the code goes on to process.
\<close>

function attemptLoop ::
  "'w transport \<Rightarrow> TitleGeneratorSettings \<Rightarrow> string \<Rightarrow> string \<Rightarrow> nat \<Rightarrow> string \<Rightarrow>
     (string \<times> string) list \<Rightarrow> 'w \<Rightarrow> (exn + string) \<times> (string \<times> string) list \<times> 'w"
where
  "attemptLoop requestUrl settings initPrompt content attempt title made w =
     (if attempt \<le> maxAttempts then
        (let currentPrompt = (if attempt = 1 then initPrompt else refinementPrompt settings title);
             currentContent = (if attempt = 1 then content else [])
         in case callAI requestUrl settings currentPrompt currentContent w of
              (Inl e, w') \<Rightarrow> (Inl e, made @ [(currentPrompt, currentContent)], w')
            | (Inr rawTitle, w') \<Rightarrow>
                (let cleaned = cleanAIResponse rawTitle in
                 if acceptable settings cleaned then
                   (Inr cleaned, made @ [(currentPrompt, currentContent)], w')
                 else
                   attemptLoop requestUrl settings initPrompt content (attempt + 1) cleaned
                     (made @ [(currentPrompt, currentContent)]) w'))
      else (Inr title, made, w))"
  by pat_completeness auto
termination
  by (relation "measure (\<lambda>(requestUrl, settings, initPrompt, content, attempt, rest).
                   maxAttempts + 1 - attempt)") auto

declare attemptLoop.simps [simp del]

text \<open>
  What a call of \<open>generateTitle\<close> leaves behind: the string its promise resolves to or the
  exception the promise is rejected with, the calls made, and the outside world.
\<close>

record 'w outcome =
  returned :: "exn + string"
  calls :: "(string \<times> string) list"
  world :: 'w

definition postProcess :: "TitleGeneratorSettings \<Rightarrow> string \<Rightarrow> string" where
  "postProcess settings title =
     (let processedTitle = (if lowerCaseTitles settings then toLowerCase title else title);
          processedTitle = (if removeForbiddenChars settings
                            then utilsSanitizeFilename processedTitle else processedTitle)
      in truncateTitle processedTitle (maxTitleLength settings))"

text \<open>
  The \<open>catch\<close> block. It reads \<open>error.message\<close> and searches it, first for
  \<open>API key is not set\<close> and, if that is not found, for \<open>API error\<close>, to choose a notice; then
  it returns the empty string. Reading or searching the message throws when what was
  caught has no message that can be searched, and that exception leaves \<open>generateTitle\<close>.
\<close>

definition catchHandler :: "exn \<Rightarrow> exn + string" where
  "catchHandler error =
     bindE (errorMessage error) (\<lambda>m.
     bindE (callIncludes m ''API key is not set'') (\<lambda>keyMissing.
       if keyMissing then Inr []
       else bindE (callIncludes m ''API error'') (\<lambda>apiError. Inr [])))"

text \<open>
  \<open>generateTitle\<close>. The settings are one snapshot for the whole call; console output and
  notices are not part of the model. The \<open>try\<close> block is the loop and the post-processing,
  and the case distinction on the result of the loop sends an exception to the \<open>catch\<close>
  block.
\<close>

definition generateTitle ::
  "'w transport \<Rightarrow> TitleGeneratorSettings \<Rightarrow> string \<Rightarrow> 'w \<Rightarrow> 'w outcome"
where
  "generateTitle requestUrl settings noteContent w =
     (if \<not> isConfigurationValid settings then \<lparr>returned = Inr [], calls = [], world = w\<rparr>
      else
        let content = slice0 noteContent (maxContentLength settings);
            initPrompt = initialPrompt settings
        in case attemptLoop requestUrl settings initPrompt content 1 [] [] w of
             (Inl e, made, w') \<Rightarrow> \<lparr>returned = catchHandler e, calls = made, world = w'\<rparr>
           | (Inr title, made, w') \<Rightarrow>
               \<lparr>returned = Inr (postProcess settings title), calls = made, world = w'\<rparr>)"

section \<open>Fixtures\<close>

text \<open>
  \<open>DEFAULT_SETTINGS\<close> of settings.ts (the fields of the model), and the same settings
  with an OpenAI key configured.
\<close>

definition DEFAULT_SETTINGS :: TitleGeneratorSettings where
  "DEFAULT_SETTINGS =
     \<lparr>aiProvider = ''openai'',
      openAiApiKey = [],
      anthropicApiKey = [],
      googleApiKey = [],
      openAiModel = ''gpt-5-mini'',
      anthropicModel = ''claude-haiku-4-5'',
      googleModel = ''gemini-3-flash-preview'',
      googleThinkingLevel = ''OFF'',
      anthropicThinkingEnabled = False,
      anthropicThinkingBudget = 1024,
      lowerCaseTitles = False,
      removeForbiddenChars = True,
      customPrompt = ''Create a concise title for this text. Respond with ONLY the title - no explanations, quotes, or extra text. Maximum {max_length} characters.'',
      temperature = Fin (3 / 10),
      maxTitleLength = 60,
      maxContentLength = 2000,
      refinePrompt = ''Make this title shorter (under {max_length} characters): \"{title}\". Respond with ONLY the new title.''\<rparr>"

definition configured :: TitleGeneratorSettings where
  "configured = DEFAULT_SETTINGS\<lparr>openAiApiKey := ''sk-0123456789''\<rparr>"

text \<open>
  A stub transport: the world is the list of requests seen so far, and the \<open>n\<close>-th
  request is answered with a successful OpenAI response carrying the \<open>n\<close>-th scripted
  text, or rejected once the script is used up.
\<close>

definition openAiReply :: "string \<Rightarrow> response" where
  "openAiReply t =
     \<lparr>resStatus = 200, resText = [],
      resJson = JObj [(''choices'', JArr [JObj [(''message'', JObj [(''content'', JStr t)])]])]\<rparr>"

definition scripted :: "string list \<Rightarrow> request list transport" where
  "scripted replies req seen =
     (if length seen < length replies then Inr (openAiReply (replies ! length seen))
      else Inl (Error ''network error''),
      seen @ [req])"

text \<open>
  Settings and responses for the examples: a maximum of 20 characters, a negative
  maximum as the settings tab accepts it, prompts that repeat their placeholders, a
  provider tag outside the enumeration, and two titles longer than the maximum.
\<close>

definition tight :: TitleGeneratorSettings where
  "tight = configured\<lparr>maxTitleLength := 20\<rparr>"

definition negative :: TitleGeneratorSettings where
  "negative = configured\<lparr>maxTitleLength := - 1\<rparr>"

definition repeating :: TitleGeneratorSettings where
  "repeating = configured
     \<lparr>customPrompt := ''Title of at most {max_length} characters ({max_length}!)'',
      refinePrompt := ''Shorten {title} to {max_length}, not {max_length}; again: {title}''\<rparr>"

definition outsider :: TitleGeneratorSettings where
  "outsider = configured\<lparr>aiProvider := ''mistral''\<rparr>"

text \<open>A transport that rejects every request with a given value.\<close>

definition rejecting :: "json \<Rightarrow> request list transport" where
  "rejecting v req seen = (Inl (Thrown v), seen @ [req])"

definition longTitle :: string where
  "longTitle = ''A title that is much too long''"

definition dollarTitle :: string where
  "dollarTitle = ''How to Save $$ on Groceries: A Practical Guide for Busy Students''"

definition rambling :: string where
  "rambling = ''An Unreasonably Long Working Title That Keeps Going Well Past Sixty Characters''"

text \<open>
  The response whose lines are \<open>ls\<close>: the lines joined by line feeds, as
  \<open>ls.join('\n')\<close> gives it.
\<close>

fun joinLines :: "string list \<Rightarrow> string" where
  "joinLines [] = []"
| "joinLines [l] = l"
| "joinLines (l # m # ls) = l @ CHR 0x0A # joinLines (m # ls)"

section \<open>Properties of the string primitives\<close>

lemma startsWith_iff: "startsWith s p \<longleftrightarrow> (\<exists>v. s = p @ v)"
proof
  assume "startsWith s p"
  then have "take (length p) s = p" by (simp add: startsWith_def)
  then have "s = p @ drop (length p) s"
    using append_take_drop_id [of "length p" s] by simp
  then show "\<exists>v. s = p @ v" ..
next
  assume "\<exists>v. s = p @ v"
  then show "startsWith s p" by (auto simp: startsWith_def)
qed

lemma indexOf_Some_iff:
  "indexOf s p = Some i \<longleftrightarrow>
     i \<le> length s \<and> startsWith (drop i s) p \<and> (\<forall>j<i. \<not> startsWith (drop j s) p)"
proof (induction s arbitrary: i)
  case Nil
  show ?case by (auto simp: startsWith_def)
next
  case (Cons c cs)
  show ?case
  proof (cases "startsWith (c # cs) p")
    case True
    show ?thesis
    proof (cases i)
      case 0
      with True show ?thesis by simp
    next
      case (Suc k)
      have "\<not> (\<forall>j<Suc k. \<not> startsWith (drop j (c # cs)) p)"
        using True by (auto intro: exI [of _ 0])
      with True Suc show ?thesis by simp
    qed
  next
    case False
    show ?thesis
    proof (cases i)
      case 0
      with False show ?thesis by simp
    next
      case (Suc k)
      have "(\<forall>j<Suc k. \<not> startsWith (drop j (c # cs)) p) \<longleftrightarrow> (\<forall>j<k. \<not> startsWith (drop j cs) p)"
      proof
        assume a: "\<forall>j<Suc k. \<not> startsWith (drop j (c # cs)) p"
        show "\<forall>j<k. \<not> startsWith (drop j cs) p"
        proof (intro allI impI)
          fix j assume "j < k"
          then have "Suc j < Suc k" by simp
          with a have "\<not> startsWith (drop (Suc j) (c # cs)) p" by blast
          then show "\<not> startsWith (drop j cs) p" by simp
        qed
      next
        assume a: "\<forall>j<k. \<not> startsWith (drop j cs) p"
        show "\<forall>j<Suc k. \<not> startsWith (drop j (c # cs)) p"
        proof (intro allI impI)
          fix j assume j: "j < Suc k"
          show "\<not> startsWith (drop j (c # cs)) p"
          proof (cases j)
            case 0
            with False show ?thesis by simp
          next
            case (Suc m)
            with j a show ?thesis by simp
          qed
        qed
      qed
      with False Suc Cons.IH [of k] show ?thesis by simp
    qed
  qed
qed

lemma indexOf_occurrence: "indexOf (u @ p @ v) p \<noteq> None"
proof (induction u)
  case Nil
  have sw: "startsWith (p @ v) p" by (simp add: startsWith_def)
  show ?case
  proof (cases "p @ v")
    case Nil
    then show ?thesis by simp
  next
    case (Cons x xs)
    with sw have "startsWith (x # xs) p" by simp
    then have "indexOf (x # xs) p = Some 0" by simp
    with Cons show ?thesis by simp
  qed
next
  case (Cons x u)
  then show ?case by simp
qed

lemma includesStr_iff: "includesStr s p \<longleftrightarrow> (\<exists>u v. s = u @ p @ v)"
proof
  assume "includesStr s p"
  then obtain i where "indexOf s p = Some i" by (auto simp: includesStr_def)
  then have "startsWith (drop i s) p" by (simp add: indexOf_Some_iff)
  then obtain v where "drop i s = p @ v" by (auto simp: startsWith_iff)
  then have "s = take i s @ p @ v"
    using append_take_drop_id [of i s] by simp
  then show "\<exists>u v. s = u @ p @ v" by blast
next
  assume "\<exists>u v. s = u @ p @ v"
  then obtain u v where "s = u @ p @ v" by blast
  then show "includesStr s p" using indexOf_occurrence [of u p v] by (simp add: includesStr_def)
qed

section \<open>Properties of the Response Cleaner\<close>

lemma trim_unchanged:
  assumes "s \<noteq> []" "\<not> isWhiteSpace (hd s)" "\<not> isWhiteSpace (last s)"
  shows "trim s = s"
proof -
  from assms(1,2) have a: "dropWhile isWhiteSpace s = s"
    by (cases s) simp_all
  from assms(1,3) have "\<not> isWhiteSpace (hd (rev s))"
    by (simp add: hd_rev)
  with assms(1) have "dropWhile isWhiteSpace (rev s) = rev s"
    by (cases "rev s") simp_all
  with a show ?thesis by (simp add: trim_def)
qed

lemma firstNonPreamble_all_preamble:
  "list_all matchesPreamble lines \<Longrightarrow> firstNonPreamble lines = []"
  by (induction lines) simp_all

lemma set_trim_subset: "set (trim s) \<subseteq> set s"
proof -
  have "set (trim s) \<subseteq> set (dropWhile isWhiteSpace s)"
    unfolding trim_def using set_dropWhileD [of _ isWhiteSpace "rev (dropWhile isWhiteSpace s)"]
    by auto
  also have "\<dots> \<subseteq> set s" using set_dropWhileD [of _ isWhiteSpace s] by auto
  finally show ?thesis .
qed

lemma polish_no_quotes: "\<not> list_ex isQuote (polish c)"
  using set_trim_subset [of "filter (\<lambda>c. \<not> isQuote c) (stripLabel labelPrefixes c)"]
  by (auto simp: polish_def list_ex_iff)

lemma cleanAIResponse_no_quotes: "\<not> list_ex isQuote (cleanAIResponse r)"
  by (simp add: cleanAIResponse_def Let_def polish_no_quotes)

lemma endsWith_append: "endsWith (s @ p) p"
  by (simp add: endsWith_def)

lemma thinkMatch_wrapped: "thinkMatch (''<think>'' @ inner @ ''</think>'') = Some inner"
proof -
  have "endsWith (inner @ ''</think>'') ''</think>''" by (rule endsWith_append)
  then show ?thesis
    by (simp add: thinkMatch_def startsWith_def)
qed

lemma trim_wrapped:
  "trim (''<think>'' @ inner @ ''</think>'') = ''<think>'' @ inner @ ''</think>''"
  by (rule trim_unchanged) (simp_all add: isWhiteSpace_def)

text \<open>
  C2 (as the code has it). A response that is exactly one reasoning block is unwrapped:
  when the interior is not empty the cleaner goes on with the trimmed interior, so the
  result is the cleaned interior and not the empty string; only an empty block
  \<open><think></think>\<close> is removed as a whole and leaves the empty string.
\<close>

theorem cleanAIResponse_whole_think_block:
  "cleanAIResponse (''<think>'' @ inner @ ''</think>'') =
     (if inner = [] then []
      else polish (selectCandidate (cleanLines (trim (removeThinkBlocks (trim inner))))))"
proof (cases "inner = []")
  case True
  have "cleanAIResponse ''<think></think>'' = []" by code_simp
  with True show ?thesis by simp
next
  case False
  show ?thesis
    unfolding cleanAIResponse_def Let_def trim_wrapped thinkMatch_wrapped
    using False by simp
qed

theorem cleanAIResponse_whole_think_block_witness:
  "cleanAIResponse ''<think>reasoning</think>'' = ''reasoning''"
proof -
  have "polish (selectCandidate (cleanLines (trim (removeThinkBlocks (trim ''reasoning'')))))
          = ''reasoning''"
    by code_simp
  with cleanAIResponse_whole_think_block [of "''reasoning''"] show ?thesis by simp
qed

text \<open>
  C2 as the specification states it fails: the cleaner does not return the empty string
  for \<open><think>reasoning</think>\<close>.
\<close>

theorem cleanAIResponse_think_counterexample:
  "cleanAIResponse ''<think>reasoning</think>'' \<noteq> []"
  by code_simp

subsection \<open>split and join\<close>

lemma split_nonempty: "split d t \<noteq> []"
  by (induction t) (auto split: list.splits)

lemma split_line: "d \<notin> set l \<Longrightarrow> split d l = [l]"
  by (induction l) (auto split: list.splits)

lemma split_line_sep: "d \<notin> set l \<Longrightarrow> split d (l @ d # t) = l # split d t"
  by (induction l) (auto split: list.splits)

lemma split_joinLines:
  "ls \<noteq> [] \<Longrightarrow> \<forall>l \<in> set ls. d \<notin> set l \<Longrightarrow> d = CHR 0x0A \<Longrightarrow> split d (joinLines ls) = ls"
proof (induction ls rule: joinLines.induct)
  case 1
  then show ?case by simp
next
  case (2 l)
  then show ?case by (simp add: split_line)
next
  case (3 l m ls)
  then show ?case by (simp add: split_line_sep)
qed

lemma split_snoc_sep: "split d (t @ [d]) = split d t @ [[]]"
  by (induction t) (auto split: list.splits simp: split_nonempty)

lemma split_snoc_other:
  "c \<noteq> d \<Longrightarrow> split d (t @ [c]) = butlast (split d t) @ [last (split d t) @ [c]]"
proof (induction t)
  case Nil
  then show ?case by simp
next
  case (Cons a t)
  show ?case
  proof (cases "a = d")
    case True
    with Cons show ?thesis by (simp add: split_nonempty)
  next
    case False
    obtain x xs where s: "split d t = x # xs"
      using split_nonempty [of d t] by (cases "split d t") auto
    from Cons.IH [OF Cons.prems] s
    have IH: "split d (t @ [c]) = butlast (x # xs) @ [last (x # xs) @ [c]]" by simp
    show ?thesis
    proof (cases xs)
      case Nil
      with False s IH show ?thesis by simp
    next
      case (Cons y ys)
      with False s IH show ?thesis by simp
    qed
  qed
qed

subsection \<open>trim\<close>

lemma trim_Nil: "trim [] = []"
  by (simp add: trim_def)

lemma trim_Cons_ws: "isWhiteSpace c \<Longrightarrow> trim (c # l) = trim l"
  by (simp add: trim_def)

lemma trim_snoc_ws: "isWhiteSpace c \<Longrightarrow> trim (l @ [c]) = trim l"
proof -
  assume c: "isWhiteSpace c"
  show ?thesis
  proof (cases "\<forall>x \<in> set l. isWhiteSpace x")
    case True
    then have a: "dropWhile isWhiteSpace l = []" by simp
    from True c have b: "dropWhile isWhiteSpace (l @ [c]) = []"
      unfolding dropWhile_eq_Nil_conv by auto
    show ?thesis unfolding trim_def a b ..
  next
    case False
    then have d: "dropWhile isWhiteSpace (l @ [c]) = dropWhile isWhiteSpace l @ [c]"
      by (auto simp: dropWhile_append1)
    show ?thesis unfolding trim_def d using c by simp
  qed
qed

lemma trim_decomp: "\<exists>a b. s = a @ trim s @ b"
proof -
  let ?m = "dropWhile isWhiteSpace s"
  have 1: "s = takeWhile isWhiteSpace s @ ?m" by simp
  have 2: "?m = trim s @ rev (takeWhile isWhiteSpace (rev ?m))"
    unfolding trim_def by (metis rev_append rev_rev_ident takeWhile_dropWhile_id)
  have "s = takeWhile isWhiteSpace s @ trim s @ rev (takeWhile isWhiteSpace (rev ?m))"
    using 1 2 by metis
  then show ?thesis by blast
qed

lemma includesStr_trim: "includesStr (trim s) p \<Longrightarrow> includesStr s p"
proof -
  assume "includesStr (trim s) p"
  then obtain u v where t: "trim s = u @ p @ v" unfolding includesStr_iff by blast
  obtain a b where "s = a @ trim s @ b" using trim_decomp by blast
  with t have "s = (a @ u) @ p @ (v @ b)" by simp
  then show ?thesis unfolding includesStr_iff by blast
qed

subsection \<open>lines of a text and of its trimmed form\<close>

lemma cleanLines_Cons_ws: "isWhiteSpace c \<Longrightarrow> cleanLines (c # t) = cleanLines t"
proof -
  assume c: "isWhiteSpace c"
  obtain x xs where s: "split CHR 0x0A t = x # xs"
    using split_nonempty [of "CHR 0x0A" t] by (cases "split CHR 0x0A t") auto
  show ?thesis
  proof (cases "c = CHR 0x0A")
    case True
    then show ?thesis by (simp add: cleanLines_def trim_Nil)
  next
    case False
    with s c show ?thesis by (simp add: cleanLines_def trim_Cons_ws)
  qed
qed

lemma cleanLines_dropWhile: "cleanLines (dropWhile isWhiteSpace t) = cleanLines t"
  by (induction t) (simp_all add: cleanLines_Cons_ws)

lemma cleanLines_snoc_ws: "isWhiteSpace c \<Longrightarrow> cleanLines (t @ [c]) = cleanLines t"
proof -
  assume c: "isWhiteSpace c"
  show ?thesis
  proof (cases "c = CHR 0x0A")
    case True
    then show ?thesis by (simp add: cleanLines_def split_snoc_sep trim_Nil)
  next
    case False
    let ?S = "split CHR 0x0A t"
    have ne: "?S \<noteq> []" by (rule split_nonempty)
    have "map trim (butlast ?S @ [last ?S @ [c]]) = map trim (butlast ?S) @ [trim (last ?S)]"
      using c by (simp add: trim_snoc_ws)
    also have "\<dots> = map trim (butlast ?S @ [last ?S])" by simp
    also have "\<dots> = map trim ?S" using ne by simp
    finally show ?thesis using False by (simp add: cleanLines_def split_snoc_other)
  qed
qed

lemma cleanLines_rev_dropWhile:
  "cleanLines (rev (dropWhile isWhiteSpace (rev t))) = cleanLines t"
proof (induction t rule: rev_induct)
  case Nil
  then show ?case by simp
next
  case (snoc c t)
  then show ?case by (simp add: cleanLines_snoc_ws)
qed

lemma cleanLines_trim: "cleanLines (trim t) = cleanLines t"
  by (simp add: trim_def cleanLines_rev_dropWhile cleanLines_dropWhile)

subsection \<open>texts without a reasoning tag\<close>

lemma includesStr_startsWith: "startsWith s p \<Longrightarrow> includesStr s p"
proof -
  assume "startsWith s p"
  then obtain v where "s = p @ v" by (auto simp: startsWith_iff)
  then have "s = [] @ p @ v" by simp
  then show ?thesis unfolding includesStr_iff by blast
qed

lemma includesStr_Cons: "includesStr cs p \<Longrightarrow> includesStr (c # cs) p"
proof -
  assume "includesStr cs p"
  then obtain u v where "cs = u @ p @ v" unfolding includesStr_iff by blast
  then have "c # cs = (c # u) @ p @ v" by simp
  then show ?thesis unfolding includesStr_iff by blast
qed

lemma removeThinkBlocks_plain:
  "\<not> includesStr t ''<think>'' \<Longrightarrow> removeThinkBlocks t = t"
proof (induction t)
  case Nil
  then show ?case by simp
next
  case (Cons c cs)
  then have 1: "\<not> startsWith (c # cs) ''<think>''" using includesStr_startsWith by blast
  from Cons.prems have "\<not> includesStr cs ''<think>''" using includesStr_Cons by blast
  with Cons.IH have "removeThinkBlocks cs = cs" by simp
  with 1 show ?case by simp
qed

lemma thinkMatch_plain: "\<not> includesStr t ''<think>'' \<Longrightarrow> thinkMatch t = None"
  using includesStr_startsWith [of t "''<think>''"] by (auto simp: thinkMatch_def)

lemma cleanAIResponse_plain:
  assumes "response \<noteq> []" "\<not> includesStr response ''<think>''"
  shows "cleanAIResponse response = polish (selectCandidate (cleanLines response))"
proof -
  from assms(2) have t: "\<not> includesStr (trim response) ''<think>''"
    using includesStr_trim by blast
  have "cleanAIResponse response = polish (selectCandidate (cleanLines (trim (trim response))))"
    using assms(1) by (simp add: cleanAIResponse_def Let_def thinkMatch_plain [OF t]
        removeThinkBlocks_plain [OF t])
  then show ?thesis by (simp add: cleanLines_trim)
qed

lemma stripLabel_none:
  "\<not> list_ex (startsWithCI line) ps \<Longrightarrow> stripLabel ps line = line"
  by (induction ps) simp_all

lemma startsWithCI_key:
  assumes "startsWithCI line p" "2 \<le> length p"
  shows "map asciiLower (take 2 line) = map asciiLower (take 2 p)"
proof -
  from assms(1) have "map asciiLower (take (length p) line) = map asciiLower p"
    by (simp add: startsWithCI_def)
  then have "take 2 (map asciiLower (take (length p) line)) = take 2 (map asciiLower p)"
    by simp
  then have "map asciiLower (take 2 (take (length p) line)) = map asciiLower (take 2 p)"
    by (simp add: take_map)
  moreover have "take 2 (take (length p) line) = take 2 line"
    using assms(2) by (simp add: min_def)
  ultimately show ?thesis by simp
qed

lemma stripLabel_exact:
  assumes "distinct (map (\<lambda>p. map asciiLower (take 2 p)) ps)"
    and "list_all (\<lambda>p. 2 \<le> length p) ps"
    and "p \<in> set ps" and "startsWithCI line p"
  shows "stripLabel ps line = dropWhile isWhiteSpace (drop (length p) line)"
  using assms
proof (induction ps)
  case Nil
  then show ?case by simp
next
  case (Cons q ps)
  show ?case
  proof (cases "p = q")
    case True
    with Cons.prems show ?thesis by simp
  next
    case False
    with Cons.prems have in_ps: "p \<in> set ps" by simp
    from Cons.prems have len: "2 \<le> length p" "2 \<le> length q"
      by (auto simp: list_all_iff)
    have "\<not> startsWithCI line q"
    proof
      assume "startsWithCI line q"
      then have "map asciiLower (take 2 q) = map asciiLower (take 2 p)"
        using startsWithCI_key [OF _ len(2)] startsWithCI_key [OF Cons.prems(4) len(1)] by simp
      moreover from Cons.prems(1) in_ps
      have "map asciiLower (take 2 q) \<noteq> map asciiLower (take 2 p)" by auto
      ultimately show False by simp
    qed
    moreover from Cons.prems Cons.IH in_ps
    have "stripLabel ps line = dropWhile isWhiteSpace (drop (length p) line)" by simp
    ultimately show ?thesis by simp
  qed
qed

lemma labelPrefixes_keys:
  "distinct (map (\<lambda>p. map asciiLower (take 2 p)) labelPrefixes)"
  "list_all (\<lambda>p. 2 \<le> length p) labelPrefixes"
  by code_simp+

lemma selectCandidate_fallback:
  "list_all matchesPreamble (line # rest) \<Longrightarrow> selectCandidate (line # rest) = line"
  using firstNonPreamble_all_preamble [of "line # rest"]
  by (simp add: selectCandidate_def Let_def)

lemma joinLines_lines:
  assumes "\<forall>l \<in> set ls. CHR 0x0A \<notin> set l"
  shows "cleanLines (joinLines ls) = filter (\<lambda>l. l \<noteq> []) (map trim ls)"
proof (cases "ls = []")
  case True
  then show ?thesis by (simp add: cleanLines_def trim_Nil)
next
  case False
  with assms have "split CHR 0x0A (joinLines ls) = ls" by (intro split_joinLines) simp_all
  then show ?thesis by (simp add: cleanLines_def)
qed

lemma cleanAIResponse_fallback:
  assumes "\<forall>l \<in> set ls. CHR 0x0A \<notin> set l"
    and "\<not> includesStr (joinLines ls) ''<think>''"
    and "filter (\<lambda>l. l \<noteq> []) (map trim ls) = line # rest"
    and "list_all matchesPreamble (line # rest)"
  shows "cleanAIResponse (joinLines ls) =
           trim (filter (\<lambda>c. \<not> isQuote c) (stripLabel labelPrefixes line))"
proof -
  have lines: "cleanLines (joinLines ls) = line # rest"
    using joinLines_lines [OF assms(1)] assms(3) by simp
  have "joinLines ls \<noteq> []"
  proof
    assume "joinLines ls = []"
    with lines have "cleanLines [] = line # rest" by simp
    then show False by (simp add: cleanLines_def trim_Nil)
  qed
  then have "cleanAIResponse (joinLines ls) = polish (selectCandidate (cleanLines (joinLines ls)))"
    using assms(2) by (rule cleanAIResponse_plain)
  with lines assms(4) show ?thesis
    by (simp add: selectCandidate_fallback polish_def)
qed

text \<open>
  C9 (as the code has it). The cleaner turns \<open>Title: My Great Note\<close> into
  \<open>My Great Note\<close>. A line is preamble when it starts, whatever the case, with one of ten
  prefixes. When every non-empty trimmed line of a response without a reasoning tag is
  preamble, the result is the first of these lines with its label stripped, its quote
  characters removed and the rest trimmed. Stripping removes one of six labels (and the
  white space behind it) from the start of the line; a line that starts with none of the
  six, which includes the four other preamble prefixes, is left as it is. No quote
  character is left in any result of the cleaner.
\<close>

theorem cleanAIResponse_preamble_fallback:
  "cleanAIResponse ''Title: My Great Note'' = ''My Great Note'' \<and>
   (\<forall>l. matchesPreamble l \<longleftrightarrow>
      list_ex (startsWithCI l)
        [''Title:'', ''Generated title:'', ''Suggested title:'', ''The title:'', ''A title:'',
         ''Here'' @ [CHR 0x27] @ ''s the title:'', ''Sure, here'', ''I'' @ [CHR 0x27] @ ''ll'',
         ''I would'', ''Based on'']) \<and>
   (\<forall>ls line rest.
      (\<forall>l \<in> set ls. CHR 0x0A \<notin> set l) \<and>
      \<not> includesStr (joinLines ls) ''<think>'' \<and>
      filter (\<lambda>l. l \<noteq> []) (map trim ls) = line # rest \<and>
      list_all matchesPreamble (line # rest) \<longrightarrow>
      cleanAIResponse (joinLines ls) =
        trim (filter (\<lambda>c. \<not> isQuote c) (stripLabel labelPrefixes line))) \<and>
   (\<forall>line p.
      p \<in> set [''Title:'', ''Generated title:'', ''Suggested title:'', ''The title:'',
                ''A title:'', ''Here'' @ [CHR 0x27] @ ''s the title:''] \<and>
      startsWithCI line p \<longrightarrow>
      stripLabel labelPrefixes line = dropWhile isWhiteSpace (drop (length p) line)) \<and>
   (\<forall>line.
      \<not> list_ex (startsWithCI line)
          [''Title:'', ''Generated title:'', ''Suggested title:'', ''The title:'',
           ''A title:'', ''Here'' @ [CHR 0x27] @ ''s the title:''] \<longrightarrow>
      stripLabel labelPrefixes line = line) \<and>
   (\<forall>response. \<not> list_ex isQuote (cleanAIResponse response))"
proof -
  have a: "cleanAIResponse ''Title: My Great Note'' = ''My Great Note''" by code_simp
  have b: "\<forall>l. matchesPreamble l \<longleftrightarrow>
      list_ex (startsWithCI l)
        [''Title:'', ''Generated title:'', ''Suggested title:'', ''The title:'', ''A title:'',
         ''Here'' @ [CHR 0x27] @ ''s the title:'', ''Sure, here'', ''I'' @ [CHR 0x27] @ ''ll'',
         ''I would'', ''Based on'']"
    by (simp add: matchesPreamble_def preamblePrefixes_def labelPrefixes_def)
  have c: "\<forall>ls line rest.
      (\<forall>l \<in> set ls. CHR 0x0A \<notin> set l) \<and>
      \<not> includesStr (joinLines ls) ''<think>'' \<and>
      filter (\<lambda>l. l \<noteq> []) (map trim ls) = line # rest \<and>
      list_all matchesPreamble (line # rest) \<longrightarrow>
      cleanAIResponse (joinLines ls) =
        trim (filter (\<lambda>c. \<not> isQuote c) (stripLabel labelPrefixes line))"
    using cleanAIResponse_fallback by blast
  have six: "labelPrefixes =
      [''Title:'', ''Generated title:'', ''Suggested title:'', ''The title:'',
       ''A title:'', ''Here'' @ [CHR 0x27] @ ''s the title:'']"
    by (simp add: labelPrefixes_def)
  have d: "\<forall>line p.
      p \<in> set [''Title:'', ''Generated title:'', ''Suggested title:'', ''The title:'',
                ''A title:'', ''Here'' @ [CHR 0x27] @ ''s the title:''] \<and>
      startsWithCI line p \<longrightarrow>
      stripLabel labelPrefixes line = dropWhile isWhiteSpace (drop (length p) line)"
    unfolding six [symmetric]
    using stripLabel_exact [OF labelPrefixes_keys] by blast
  have e: "\<forall>line.
      \<not> list_ex (startsWithCI line)
          [''Title:'', ''Generated title:'', ''Suggested title:'', ''The title:'',
           ''A title:'', ''Here'' @ [CHR 0x27] @ ''s the title:''] \<longrightarrow>
      stripLabel labelPrefixes line = line"
    unfolding six [symmetric] using stripLabel_none by blast
  from a b c d e cleanAIResponse_no_quotes show ?thesis by blast
qed

theorem cleanAIResponse_preamble_fallback_witness:
  "cleanAIResponse
     (joinLines [''  Title: \"My Great Note\"  '', [], ''Sure, here you go''])
     = ''My Great Note'' \<and>
   stripLabel labelPrefixes ''Title: My Great Note'' = ''My Great Note'' \<and>
   stripLabel labelPrefixes ''Sure, here you go'' = ''Sure, here you go''"
proof -
  let ?ls = "[''  Title: \"My Great Note\"  '', [], ''Sure, here you go'']"
  have h: "(\<forall>l \<in> set ?ls. CHR 0x0A \<notin> set l) \<and>
      \<not> includesStr (joinLines ?ls) ''<think>'' \<and>
      filter (\<lambda>l. l \<noteq> []) (map trim ?ls) = ''Title: \"My Great Note\"'' # [''Sure, here you go''] \<and>
      list_all matchesPreamble (''Title: \"My Great Note\"'' # [''Sure, here you go''])"
    by code_simp
  have v: "trim (filter (\<lambda>c. \<not> isQuote c) (stripLabel labelPrefixes ''Title: \"My Great Note\"''))
             = ''My Great Note''"
    by code_simp
  from h cleanAIResponse_preamble_fallback
  have "cleanAIResponse (joinLines ?ls) =
        trim (filter (\<lambda>c. \<not> isQuote c) (stripLabel labelPrefixes ''Title: \"My Great Note\"''))"
    by blast
  with v have 1: "cleanAIResponse (joinLines ?ls) = ''My Great Note''" by simp
  have p: "''Title:'' \<in> set [''Title:'', ''Generated title:'', ''Suggested title:'', ''The title:'',
                ''A title:'', ''Here'' @ [CHR 0x27] @ ''s the title:''] \<and>
      startsWithCI ''Title: My Great Note'' ''Title:''"
    by code_simp
  have dr: "dropWhile isWhiteSpace (drop (length ''Title:'') ''Title: My Great Note'') = ''My Great Note''"
    by code_simp
  from p cleanAIResponse_preamble_fallback
  have "stripLabel labelPrefixes ''Title: My Great Note''
          = dropWhile isWhiteSpace (drop (length ''Title:'') ''Title: My Great Note'')"
    by blast
  with dr have 2: "stripLabel labelPrefixes ''Title: My Great Note'' = ''My Great Note''" by simp
  have q: "\<not> list_ex (startsWithCI ''Sure, here you go'')
          [''Title:'', ''Generated title:'', ''Suggested title:'', ''The title:'',
           ''A title:'', ''Here'' @ [CHR 0x27] @ ''s the title:'']"
    by code_simp
  from q cleanAIResponse_preamble_fallback
  have 3: "stripLabel labelPrefixes ''Sure, here you go'' = ''Sure, here you go''" by blast
  from 1 2 3 show ?thesis by blast
qed

text \<open>
  C9 as the specification states it fails: \<open>Sure, here you go\<close> matches a preamble
  pattern, is selected as the first line, and keeps its preamble.
\<close>

theorem cleanAIResponse_unstripped_preamble_counterexample:
  "matchesPreamble ''Sure, here you go'' \<and>
   cleanAIResponse ''Sure, here you go'' = ''Sure, here you go''"
  by code_simp

section \<open>Properties of the placeholder substitution\<close>

lemma indexOf_first:
  assumes "p \<noteq> []" "\<not> includesStr (a @ butlast p) p"
  shows "indexOf (a @ p @ b) p = Some (length a)"
proof -
  define xs where "xs = a @ butlast p"
  have whole: "a @ p @ b = xs @ (last p # b)"
    using assms(1) by (simp add: xs_def)
  have "\<not> startsWith (drop j (a @ p @ b)) p" if j: "j < length a" for j
  proof
    assume "startsWith (drop j (a @ p @ b)) p"
    then have eq: "take (length p) (drop j (xs @ (last p # b))) = p"
      by (simp add: startsWith_def whole)
    have len: "j + length p \<le> length xs"
      using j assms(1) by (simp add: xs_def Suc_leI)
    then have "drop j (xs @ (last p # b)) = drop j xs @ (last p # b)" by simp
    moreover have "length p \<le> length (drop j xs)" using len by simp
    ultimately have "take (length p) (drop j (xs @ (last p # b))) = take (length p) (drop j xs)"
      by simp
    with eq have "startsWith (drop j xs) p" by (simp add: startsWith_def)
    then obtain v where "drop j xs = p @ v" by (auto simp: startsWith_iff)
    then have "xs = take j xs @ p @ v"
      using append_take_drop_id [of j xs] by simp
    then have "includesStr xs p" unfolding includesStr_iff by blast
    with assms(2) show False by (simp add: xs_def)
  qed
  moreover have "startsWith (drop (length a) (a @ p @ b)) p" by (simp add: startsWith_def)
  ultimately show ?thesis by (simp add: indexOf_Some_iff)
qed

lemma replaceStr_first:
  assumes "p \<noteq> []" "\<not> includesStr (a @ butlast p) p"
  shows "replaceStr (a @ p @ b) p rep = a @ getSubstitution p a b rep @ b"
  by (simp add: replaceStr_def indexOf_first [OF assms] Let_def)

lemma getSubstitution_plain:
  "CHR ''$'' \<notin> set rep \<Longrightarrow> getSubstitution m pre post rep = rep"
  by (induction m pre post rep rule: getSubstitution.induct) auto

lemma digitChar_not_dollar: "d < 10 \<Longrightarrow> digitChar d \<noteq> CHR ''$''"
proof -
  assume "d < 10"
  then have "digitChar d \<in> set ''0123456789''"
    unfolding digitChar_def by (intro nth_mem) simp
  then show ?thesis by auto
qed

lemma natToString_no_dollar: "CHR ''$'' \<notin> set (natToString n)"
proof (induction n rule: natToString.induct)
  case (1 n)
  show ?case
  proof (cases "n < 10")
    case True
    then show ?thesis using digitChar_not_dollar [of n] by (subst natToString.simps) simp
  next
    case False
    have "n mod 10 < 10" by simp
    then have "digitChar (n mod 10) \<noteq> CHR ''$''" by (rule digitChar_not_dollar)
    with False "1.IH" show ?thesis by (subst natToString.simps) simp
  qed
qed

lemma toString_no_dollar: "CHR ''$'' \<notin> set (toString i)"
  by (simp add: toString_def natToString_no_dollar)

lemma replaceStr_number:
  assumes "p \<noteq> []" "\<not> includesStr (a @ butlast p) p"
  shows "replaceStr (a @ p @ b) p (toString n) = a @ toString n @ b"
  by (simp add: replaceStr_first [OF assms] getSubstitution_plain toString_no_dollar)

text \<open>
  A title without a dollar sign is substituted as it is: the refinement prompt of
  attempts two and three is the template with the number and the previous title in
  place of the first \<open>{max_length}\<close> and the first \<open>{title}\<close>.
\<close>

lemma refinementPrompt_plain_title:
  assumes "refinePrompt s = a @ ''{max_length}'' @ b"
    and "\<not> includesStr (a @ ''{max_length'') ''{max_length}''"
    and "a @ toString (maxTitleLength s) @ b = c @ ''{title}'' @ d"
    and "\<not> includesStr (c @ ''{title'') ''{title}''"
    and "CHR ''$'' \<notin> set title"
  shows "refinementPrompt s title = c @ title @ d"
proof -
  from assms(2) have "\<not> includesStr (a @ butlast ''{max_length}'') ''{max_length}''" by simp
  then have 1: "replaceStr (a @ ''{max_length}'' @ b) ''{max_length}'' (toString (maxTitleLength s))
               = a @ toString (maxTitleLength s) @ b"
    by (intro replaceStr_number) simp_all
  from assms(4) have "\<not> includesStr (c @ butlast ''{title}'') ''{title}''" by simp
  then have 2: "replaceStr (c @ ''{title}'' @ d) ''{title}'' title
               = c @ getSubstitution ''{title}'' c d title @ d"
    by (intro replaceStr_first) simp_all
  have "refinementPrompt s title = c @ getSubstitution ''{title}'' c d title @ d"
    unfolding refinementPrompt_def assms(1) 1 assms(3) 2 ..
  with assms(5) show ?thesis by (simp add: getSubstitution_plain)
qed

section \<open>Properties of the generation orchestrator\<close>

lemma attemptLoop_exit: "attemptLoop rq s ip c 4 t made w = (Inr t, made, w)"
  by (subst attemptLoop.simps) (simp add: maxAttempts_def)

lemma attemptLoop_step:
  assumes "attempt \<le> maxAttempts"
    and "callAI rq s (if attempt = 1 then ip else refinementPrompt s t)
           (if attempt = 1 then c else []) w = (r, w')"
  shows "attemptLoop rq s ip c attempt t made w =
     (case r of
        Inl e \<Rightarrow>
          (Inl e, made @ [(if attempt = 1 then ip else refinementPrompt s t,
                           if attempt = 1 then c else [])], w')
      | Inr raw \<Rightarrow>
          if acceptable s (cleanAIResponse raw) then
            (Inr (cleanAIResponse raw),
             made @ [(if attempt = 1 then ip else refinementPrompt s t,
                      if attempt = 1 then c else [])], w')
          else
            attemptLoop rq s ip c (attempt + 1) (cleanAIResponse raw)
              (made @ [(if attempt = 1 then ip else refinementPrompt s t,
                        if attempt = 1 then c else [])]) w')"
  using assms by (subst attemptLoop.simps) (simp add: Let_def split: sum.splits)

lemma attemptLoop_first:
  assumes "callAI rq s ip c w = (r, w')"
  shows "attemptLoop rq s ip c (Suc 0) t made w =
     (case r of
        Inl e \<Rightarrow> (Inl e, made @ [(ip, c)], w')
      | Inr raw \<Rightarrow>
          if acceptable s (cleanAIResponse raw) then
            (Inr (cleanAIResponse raw), made @ [(ip, c)], w')
          else attemptLoop rq s ip c 2 (cleanAIResponse raw) (made @ [(ip, c)]) w')"
  using attemptLoop_step [of 1 rq s ip t c w r w' made] assms
  by (simp add: maxAttempts_def numeral_2_eq_2 split: sum.splits)

lemma attemptLoop_second:
  assumes "callAI rq s (refinementPrompt s t) [] w = (r, w')"
  shows "attemptLoop rq s ip c 2 t made w =
     (case r of
        Inl e \<Rightarrow> (Inl e, made @ [(refinementPrompt s t, [])], w')
      | Inr raw \<Rightarrow>
          if acceptable s (cleanAIResponse raw) then
            (Inr (cleanAIResponse raw), made @ [(refinementPrompt s t, [])], w')
          else attemptLoop rq s ip c 3 (cleanAIResponse raw)
                 (made @ [(refinementPrompt s t, [])]) w')"
  using attemptLoop_step [of 2 rq s ip t c w r w' made] assms
  by (simp add: maxAttempts_def numeral_2_eq_2 numeral_3_eq_3 split: sum.splits)

lemma attemptLoop_third:
  assumes "callAI rq s (refinementPrompt s t) [] w = (r, w')"
  shows "attemptLoop rq s ip c 3 t made w =
     (case r of
        Inl e \<Rightarrow> (Inl e, made @ [(refinementPrompt s t, [])], w')
      | Inr raw \<Rightarrow> (Inr (cleanAIResponse raw), made @ [(refinementPrompt s t, [])], w'))"
  using attemptLoop_step [of 3 rq s ip t c w r w' made] assms
  by (simp add: maxAttempts_def attemptLoop_exit split: sum.splits)

lemma attemptLoop_calls_bound:
  "length (fst (snd (attemptLoop rq s ip c attempt t made w)))
     \<le> length made + (maxAttempts + 1 - attempt)"
proof (induction rq s ip c attempt t made w rule: attemptLoop.induct)
  case (1 rq s ip c attempt t made w)
  show ?case
  proof (cases "attempt \<le> maxAttempts")
    case False
    then show ?thesis by (subst attemptLoop.simps) simp
  next
    case True
    let ?p = "if attempt = 1 then ip else refinementPrompt s t"
    let ?c = "if attempt = 1 then c else []"
    obtain r w' where call: "callAI rq s ?p ?c w = (r, w')" by (cases "callAI rq s ?p ?c w")
    note step = attemptLoop_step [OF True call, of made]
    show ?thesis
    proof (cases r)
      case (Inl e)
      with step True show ?thesis by simp
    next
      case (Inr raw)
      show ?thesis
      proof (cases "acceptable s (cleanAIResponse raw)")
        case acc: True
        with step True Inr show ?thesis by simp
      next
        case rej: False
        from "1.IH" [OF True refl refl call [symmetric] Inr refl rej]
        have "length (fst (snd (attemptLoop rq s ip c (attempt + 1) (cleanAIResponse raw)
                 (made @ [(?p, ?c)]) w')))
               \<le> length (made @ [(?p, ?c)]) + (maxAttempts + 1 - (attempt + 1))" .
        with step True Inr rej show ?thesis by simp
      qed
    qed
  qed
qed

lemma truncateTitle_length:
  "0 \<le> n \<Longrightarrow> int (length (truncateTitle t n)) \<le> n"
  by (simp add: truncateTitle_def)

lemma postProcess_length:
  "0 \<le> maxTitleLength s \<Longrightarrow> int (length (postProcess s t)) \<le> maxTitleLength s"
  by (simp add: postProcess_def Let_def truncateTitle_length)

lemma catchHandler_returns: "catchHandler e = Inr t \<Longrightarrow> t = []"
  by (auto simp: catchHandler_def bindE_def split: sum.splits if_splits)

lemma generateTitle_returned_cases:
  "returned (generateTitle rq s noteContent w) = Inr t \<Longrightarrow> t = [] \<or> (\<exists>u. t = postProcess s u)"
  by (auto simp: generateTitle_def Let_def split: prod.splits sum.splits if_splits
      dest: catchHandler_returns)

lemma generateTitle_calls:
  "isConfigurationValid s \<Longrightarrow>
   calls (generateTitle rq s noteContent w) =
     fst (snd (attemptLoop rq s (initialPrompt s) (slice0 noteContent (maxContentLength s)) 1 [] [] w))"
  by (auto simp: generateTitle_def Let_def split: prod.splits sum.splits)

text \<open>
  C1 (as the code has it). With a valid configuration \<open>generateTitle\<close> makes at most three
  provider calls; when no call throws, it stops at the first attempt whose cleaned title is
  acceptable and makes no further call, and after three unacceptable attempts it goes on
  with the cleaned title of the third; and whenever the configured maximum is not negative
  a returned string is at most that long, by the final truncation.
\<close>

theorem generateTitle_attempts:
  assumes "isConfigurationValid s"
  shows
    "length (calls (generateTitle rq s noteContent w)) \<le> 3 \<and>
     (\<forall>r1 w1.
        callAI rq s (initialPrompt s) (slice0 noteContent (maxContentLength s)) w = (Inr r1, w1) \<and>
        acceptable s (cleanAIResponse r1) \<longrightarrow>
        generateTitle rq s noteContent w =
          \<lparr>returned = Inr (postProcess s (cleanAIResponse r1)),
           calls = [(initialPrompt s, slice0 noteContent (maxContentLength s))],
           world = w1\<rparr>) \<and>
     (\<forall>r1 w1 r2 w2.
        callAI rq s (initialPrompt s) (slice0 noteContent (maxContentLength s)) w = (Inr r1, w1) \<and>
        \<not> acceptable s (cleanAIResponse r1) \<and>
        callAI rq s (refinementPrompt s (cleanAIResponse r1)) [] w1 = (Inr r2, w2) \<and>
        acceptable s (cleanAIResponse r2) \<longrightarrow>
        generateTitle rq s noteContent w =
          \<lparr>returned = Inr (postProcess s (cleanAIResponse r2)),
           calls = [(initialPrompt s, slice0 noteContent (maxContentLength s)),
                    (refinementPrompt s (cleanAIResponse r1), [])],
           world = w2\<rparr>) \<and>
     (\<forall>r1 w1 r2 w2 r3 w3.
        callAI rq s (initialPrompt s) (slice0 noteContent (maxContentLength s)) w = (Inr r1, w1) \<and>
        \<not> acceptable s (cleanAIResponse r1) \<and>
        callAI rq s (refinementPrompt s (cleanAIResponse r1)) [] w1 = (Inr r2, w2) \<and>
        \<not> acceptable s (cleanAIResponse r2) \<and>
        callAI rq s (refinementPrompt s (cleanAIResponse r2)) [] w2 = (Inr r3, w3) \<longrightarrow>
        generateTitle rq s noteContent w =
          \<lparr>returned = Inr (postProcess s (cleanAIResponse r3)),
           calls = [(initialPrompt s, slice0 noteContent (maxContentLength s)),
                    (refinementPrompt s (cleanAIResponse r1), []),
                    (refinementPrompt s (cleanAIResponse r2), [])],
           world = w3\<rparr>) \<and>
     (0 \<le> maxTitleLength s \<longrightarrow>
        (\<forall>t. returned (generateTitle rq s noteContent w) = Inr t \<longrightarrow>
             int (length t) \<le> maxTitleLength s))"
proof (intro conjI allI impI)
  have "length (calls (generateTitle rq s noteContent w)) \<le> length ([] :: (string \<times> string) list) + (maxAttempts + 1 - 1)"
    unfolding generateTitle_calls [OF assms] by (rule attemptLoop_calls_bound)
  then show "length (calls (generateTitle rq s noteContent w)) \<le> 3"
    by (simp add: maxAttempts_def)
next
  fix r1 w1
  assume "callAI rq s (initialPrompt s) (slice0 noteContent (maxContentLength s)) w = (Inr r1, w1) \<and>
        acceptable s (cleanAIResponse r1)"
  then show "generateTitle rq s noteContent w =
          \<lparr>returned = Inr (postProcess s (cleanAIResponse r1)),
           calls = [(initialPrompt s, slice0 noteContent (maxContentLength s))],
           world = w1\<rparr>"
    using assms by (simp add: generateTitle_def Let_def attemptLoop_first)
next
  fix r1 w1 r2 w2
  assume "callAI rq s (initialPrompt s) (slice0 noteContent (maxContentLength s)) w = (Inr r1, w1) \<and>
        \<not> acceptable s (cleanAIResponse r1) \<and>
        callAI rq s (refinementPrompt s (cleanAIResponse r1)) [] w1 = (Inr r2, w2) \<and>
        acceptable s (cleanAIResponse r2)"
  then show "generateTitle rq s noteContent w =
          \<lparr>returned = Inr (postProcess s (cleanAIResponse r2)),
           calls = [(initialPrompt s, slice0 noteContent (maxContentLength s)),
                    (refinementPrompt s (cleanAIResponse r1), [])],
           world = w2\<rparr>"
    using assms by (simp add: generateTitle_def Let_def attemptLoop_first attemptLoop_second)
next
  fix r1 w1 r2 w2 r3 w3
  assume "callAI rq s (initialPrompt s) (slice0 noteContent (maxContentLength s)) w = (Inr r1, w1) \<and>
        \<not> acceptable s (cleanAIResponse r1) \<and>
        callAI rq s (refinementPrompt s (cleanAIResponse r1)) [] w1 = (Inr r2, w2) \<and>
        \<not> acceptable s (cleanAIResponse r2) \<and>
        callAI rq s (refinementPrompt s (cleanAIResponse r2)) [] w2 = (Inr r3, w3)"
  then show "generateTitle rq s noteContent w =
          \<lparr>returned = Inr (postProcess s (cleanAIResponse r3)),
           calls = [(initialPrompt s, slice0 noteContent (maxContentLength s)),
                    (refinementPrompt s (cleanAIResponse r1), []),
                    (refinementPrompt s (cleanAIResponse r2), [])],
           world = w3\<rparr>"
    using assms
    by (simp add: generateTitle_def Let_def attemptLoop_first attemptLoop_second attemptLoop_third)
next
  fix t
  assume "0 \<le> maxTitleLength s" and "returned (generateTitle rq s noteContent w) = Inr t"
  then show "int (length t) \<le> maxTitleLength s"
    using generateTitle_returned_cases [of rq s noteContent w t] postProcess_length [of s] by auto
qed

theorem generateTitle_attempts_witness:
  "isConfigurationValid tight \<and>
   length (calls (generateTitle (scripted [longTitle, longTitle, longTitle]) tight ''Some note'' [])) = 3 \<and>
   returned (generateTitle (scripted [longTitle, longTitle, longTitle]) tight ''Some note'' [])
     = Inr ''A title that is much'' \<and>
   int (length ''A title that is much'') \<le> maxTitleLength tight"
proof -
  let ?rq = "scripted [longTitle, longTitle, longTitle]"
  let ?c = "slice0 ''Some note'' (maxContentLength tight)"
  define w1 where "w1 = snd (callAI ?rq tight (initialPrompt tight) ?c [])"
  define w2 where "w2 = snd (callAI ?rq tight (refinementPrompt tight (cleanAIResponse longTitle)) [] w1)"
  define w3 where "w3 = snd (callAI ?rq tight (refinementPrompt tight (cleanAIResponse longTitle)) [] w2)"
  have v: "isConfigurationValid tight" by code_simp
  have rej: "\<not> acceptable tight (cleanAIResponse longTitle)" by code_simp
  have "fst (callAI ?rq tight (initialPrompt tight) ?c []) = Inr longTitle" by code_simp
  then have c1: "callAI ?rq tight (initialPrompt tight) ?c [] = (Inr longTitle, w1)"
    by (simp add: w1_def prod_eq_iff)
  have "fst (callAI ?rq tight (refinementPrompt tight (cleanAIResponse longTitle)) []
          (snd (callAI ?rq tight (initialPrompt tight) ?c []))) = Inr longTitle" by code_simp
  then have c2: "callAI ?rq tight (refinementPrompt tight (cleanAIResponse longTitle)) [] w1 = (Inr longTitle, w2)"
    by (simp add: w1_def w2_def prod_eq_iff)
  have "fst (callAI ?rq tight (refinementPrompt tight (cleanAIResponse longTitle)) []
          (snd (callAI ?rq tight (refinementPrompt tight (cleanAIResponse longTitle)) []
          (snd (callAI ?rq tight (initialPrompt tight) ?c []))))) = Inr longTitle" by code_simp
  then have c3: "callAI ?rq tight (refinementPrompt tight (cleanAIResponse longTitle)) [] w2 = (Inr longTitle, w3)"
    by (simp add: w1_def w2_def w3_def prod_eq_iff)
  note facts = generateTitle_attempts [OF v, of ?rq "''Some note''" "[]"]
  from facts c1 c2 c3 rej
  have out: "generateTitle ?rq tight ''Some note'' [] =
      \<lparr>returned = Inr (postProcess tight (cleanAIResponse longTitle)),
       calls = [(initialPrompt tight, ?c),
                (refinementPrompt tight (cleanAIResponse longTitle), []),
                (refinementPrompt tight (cleanAIResponse longTitle), [])],
       world = w3\<rparr>"
    by blast
  have pp: "postProcess tight (cleanAIResponse longTitle) = ''A title that is much''" by code_simp
  have nn: "0 \<le> maxTitleLength tight" by code_simp
  from out pp have ret: "returned (generateTitle ?rq tight ''Some note'' []) = Inr ''A title that is much''"
    by simp
  with facts nn have "int (length ''A title that is much'') \<le> maxTitleLength tight"
    by blast
  with v out pp show ?thesis by simp
qed

text \<open>
  C1 as the specification states it fails for a negative maximum, which passes the
  configuration check: no string is that short.
\<close>

theorem generateTitle_negative_length_counterexample:
  "isConfigurationValid negative \<and>
   returned (generateTitle (scripted [longTitle, longTitle, longTitle]) negative ''Some note'' [])
     = Inr [] \<and>
   \<not> int (length ([] :: string)) \<le> maxTitleLength negative"
  by code_simp

text \<open>
  C4. If the key of the active provider is blank or its model is empty (or the provider
  tag is unknown), \<open>generateTitle\<close> returns the empty string, makes no call and leaves the
  outside world as it was, whatever the transport is.
\<close>

theorem generateTitle_invalid_configuration:
  assumes "aiProvider s = ''openai'' \<longrightarrow> trim (openAiApiKey s) = [] \<or> openAiModel s = []"
    and "aiProvider s = ''anthropic'' \<longrightarrow> trim (anthropicApiKey s) = [] \<or> anthropicModel s = []"
    and "aiProvider s = ''google'' \<longrightarrow> trim (googleApiKey s) = [] \<or> googleModel s = []"
  shows "generateTitle rq s noteContent w = \<lparr>returned = Inr [], calls = [], world = w\<rparr>"
proof -
  from assms have "\<not> isConfigurationValid s"
    by (auto simp: isConfigurationValid_def)
  then show ?thesis by (simp add: generateTitle_def)
qed

theorem generateTitle_invalid_configuration_witness:
  "trim (openAiApiKey DEFAULT_SETTINGS) = [] \<and>
   generateTitle (scripted [''A title'']) DEFAULT_SETTINGS ''Some note'' []
     = \<lparr>returned = Inr [], calls = [], world = []\<rparr>"
proof -
  have k: "trim (openAiApiKey DEFAULT_SETTINGS) = []" by code_simp
  have p: "aiProvider DEFAULT_SETTINGS = ''openai''" by code_simp
  from k p generateTitle_invalid_configuration [of DEFAULT_SETTINGS "scripted [''A title'']" "''Some note''" "[]"]
  show ?thesis by simp
qed

text \<open>
  C3 at a title that holds \<open>$$\<close>. The first response is its own cleaned title and is too
  long, so a second attempt is made; the prompt of that attempt does not carry the title
  as it was: \<open>replace\<close> expands \<open>$$\<close> in the replacement text to one dollar sign.
\<close>

theorem refinementPrompt_dollar_title:
  "cleanAIResponse dollarTitle = dollarTitle \<and>
   \<not> acceptable configured dollarTitle \<and>
   map fst (calls (generateTitle (scripted [dollarTitle, ''Saving on Groceries'']) configured
                     ''Some note'' [])) =
     [initialPrompt configured,
      ''Make this title shorter (under 60 characters): \"How to Save $ on Groceries: A Practical Guide for Busy Students\". Respond with ONLY the new title.'']"
  by code_simp

subsection \<open>Exceptions\<close>

lemma catchHandler_error_objects:
  "catchHandler (Error m) = Inr []" "catchHandler TypeError = Inr []"
  "catchHandler (TitleGeneratorError m code userMessage) = Inr []"
  by (simp_all add: catchHandler_def bindE_def)

lemma generateTitle_exception_paths:
  assumes "isConfigurationValid s"
  shows
    "(\<forall>e w1.
        callAI rq s (initialPrompt s) (slice0 noteContent (maxContentLength s)) w = (Inl e, w1) \<longrightarrow>
        generateTitle rq s noteContent w =
          \<lparr>returned = catchHandler e,
           calls = [(initialPrompt s, slice0 noteContent (maxContentLength s))],
           world = w1\<rparr>) \<and>
     (\<forall>r1 w1 e w2.
        callAI rq s (initialPrompt s) (slice0 noteContent (maxContentLength s)) w = (Inr r1, w1) \<and>
        \<not> acceptable s (cleanAIResponse r1) \<and>
        callAI rq s (refinementPrompt s (cleanAIResponse r1)) [] w1 = (Inl e, w2) \<longrightarrow>
        generateTitle rq s noteContent w =
          \<lparr>returned = catchHandler e,
           calls = [(initialPrompt s, slice0 noteContent (maxContentLength s)),
                    (refinementPrompt s (cleanAIResponse r1), [])],
           world = w2\<rparr>) \<and>
     (\<forall>r1 w1 r2 w2 e w3.
        callAI rq s (initialPrompt s) (slice0 noteContent (maxContentLength s)) w = (Inr r1, w1) \<and>
        \<not> acceptable s (cleanAIResponse r1) \<and>
        callAI rq s (refinementPrompt s (cleanAIResponse r1)) [] w1 = (Inr r2, w2) \<and>
        \<not> acceptable s (cleanAIResponse r2) \<and>
        callAI rq s (refinementPrompt s (cleanAIResponse r2)) [] w2 = (Inl e, w3) \<longrightarrow>
        generateTitle rq s noteContent w =
          \<lparr>returned = catchHandler e,
           calls = [(initialPrompt s, slice0 noteContent (maxContentLength s)),
                    (refinementPrompt s (cleanAIResponse r1), []),
                    (refinementPrompt s (cleanAIResponse r2), [])],
           world = w3\<rparr>)"
  using assms
  by (simp add: generateTitle_def Let_def attemptLoop_first attemptLoop_second attemptLoop_third)

text \<open>
  C5 at a request rejected with a value that is no error object. The configuration is
  valid and the first request is rejected with the string \<open>timeout\<close>, or with \<open>null\<close>: the
  handler evaluates \<open>error.message.includes(...)\<close>, which throws a \<open>TypeError\<close>, and that
  exception leaves \<open>generateTitle\<close>. A request rejected with an \<open>Error\<close> gives the empty
  string.
\<close>

theorem generateTitle_handler_throws:
  "isConfigurationValid configured \<and>
   returned (generateTitle (rejecting (JStr ''timeout'')) configured ''Some note'' [])
     = Inl TypeError \<and>
   returned (generateTitle (rejecting JNull) configured ''Some note'' []) = Inl TypeError \<and>
   returned (generateTitle (scripted []) configured ''Some note'' []) = Inr []"
  by code_simp

subsection \<open>Prompts of the calls\<close>

lemma replaceStr_absent: "\<not> includesStr s p \<Longrightarrow> replaceStr s p rep = s"
  by (simp add: replaceStr_def includesStr_def)

lemma attemptLoop_log:
  "1 \<le> attempt \<Longrightarrow> \<exists>extra. fst (snd (attemptLoop rq s ip c attempt t made w)) = made @ extra \<and>
     (attempt = 1 \<longrightarrow>
        (\<exists>rest. extra = (ip, c) # rest \<and>
                list_all (\<lambda>call. \<exists>title. call = (refinementPrompt s title, [])) rest)) \<and>
     (attempt \<noteq> 1 \<longrightarrow>
        list_all (\<lambda>call. \<exists>title. call = (refinementPrompt s title, [])) extra)"
proof (induction rq s ip c attempt t made w rule: attemptLoop.induct)
  case (1 rq s ip c attempt t made w)
  let ?R = "\<lambda>call. \<exists>title. call = (refinementPrompt s title, [])"
  show ?case
  proof (cases "attempt \<le> maxAttempts")
    case False
    then have "attempt \<noteq> 1" by (simp add: maxAttempts_def)
    moreover from False have "attemptLoop rq s ip c attempt t made w = (Inr t, made, w)"
      by (subst attemptLoop.simps) simp
    ultimately show ?thesis by simp
  next
    case True
    let ?p = "if attempt = 1 then ip else refinementPrompt s t"
    let ?c = "if attempt = 1 then c else []"
    obtain r w' where call: "callAI rq s ?p ?c w = (r, w')" by (cases "callAI rq s ?p ?c w")
    note step = attemptLoop_step [OF True call, of made]
    have here: "attempt \<noteq> 1 \<Longrightarrow> ?R (?p, ?c)" by auto
    show ?thesis
    proof (cases r)
      case (Inl e)
      with step have "fst (snd (attemptLoop rq s ip c attempt t made w)) = made @ [(?p, ?c)]"
        by simp
      with here show ?thesis by auto
    next
      case (Inr raw)
      show ?thesis
      proof (cases "acceptable s (cleanAIResponse raw)")
        case acc: True
        with step Inr have "fst (snd (attemptLoop rq s ip c attempt t made w)) = made @ [(?p, ?c)]"
          by simp
        with here show ?thesis by auto
      next
        case rej: False
        have "1 \<le> attempt + 1" by simp
        from "1.IH" [OF True refl refl call [symmetric] Inr refl rej this]
        obtain extra where
          e: "fst (snd (attemptLoop rq s ip c (attempt + 1) (cleanAIResponse raw)
                 (made @ [(?p, ?c)]) w')) = (made @ [(?p, ?c)]) @ extra"
          and r: "list_all ?R extra"
          using "1.prems" by auto
        from step Inr rej e
        have "fst (snd (attemptLoop rq s ip c attempt t made w)) = made @ (?p, ?c) # extra"
          by simp
        with r here show ?thesis by auto
      qed
    qed
  qed
qed

lemma generateTitle_calls_shape:
  assumes "isConfigurationValid s"
  shows "\<exists>rest. calls (generateTitle rq s noteContent w) =
           (initialPrompt s, slice0 noteContent (maxContentLength s)) # rest \<and>
           list_all (\<lambda>call. \<exists>title. call = (refinementPrompt s title, [])) rest"
  using attemptLoop_log [of 1 rq s "initialPrompt s" "slice0 noteContent (maxContentLength s)" "[]" "[]" w]
  unfolding generateTitle_calls [OF assms] by auto

lemma initialPrompt_first:
  assumes "customPrompt s = a @ ''{max_length}'' @ b"
    and "\<not> includesStr (a @ ''{max_length'') ''{max_length}''"
  shows "initialPrompt s = a @ toString (maxTitleLength s) @ b"
proof -
  from assms(2) have "\<not> includesStr (a @ butlast ''{max_length}'') ''{max_length}''" by simp
  then have "replaceStr (a @ ''{max_length}'' @ b) ''{max_length}'' (toString (maxTitleLength s))
               = a @ toString (maxTitleLength s) @ b"
    by (intro replaceStr_number) simp_all
  with assms(1) show ?thesis by (simp add: initialPrompt_def)
qed

lemma refinementPrompt_both:
  assumes "refinePrompt s = a @ ''{max_length}'' @ b"
    and "\<not> includesStr (a @ ''{max_length'') ''{max_length}''"
    and "a @ toString (maxTitleLength s) @ b = c @ ''{title}'' @ d"
    and "\<not> includesStr (c @ ''{title'') ''{title}''"
  shows "refinementPrompt s title = c @ getSubstitution ''{title}'' c d title @ d"
proof -
  from assms(2) have "\<not> includesStr (a @ butlast ''{max_length}'') ''{max_length}''" by simp
  then have 1: "replaceStr (a @ ''{max_length}'' @ b) ''{max_length}'' (toString (maxTitleLength s))
               = a @ toString (maxTitleLength s) @ b"
    by (intro replaceStr_number) simp_all
  from assms(4) have "\<not> includesStr (c @ butlast ''{title}'') ''{title}''" by simp
  then have 2: "replaceStr (c @ ''{title}'' @ d) ''{title}'' title
               = c @ getSubstitution ''{title}'' c d title @ d"
    by (intro replaceStr_first) simp_all
  show ?thesis unfolding refinementPrompt_def assms(1) 1 assms(3) 2 ..
qed

lemma refinementPrompt_title_only:
  assumes "\<not> includesStr (refinePrompt s) ''{max_length}''"
    and "refinePrompt s = c @ ''{title}'' @ d"
    and "\<not> includesStr (c @ ''{title'') ''{title}''"
  shows "refinementPrompt s title = c @ getSubstitution ''{title}'' c d title @ d"
proof -
  have 1: "replaceStr (refinePrompt s) ''{max_length}'' (toString (maxTitleLength s)) = refinePrompt s"
    using assms(1) by (rule replaceStr_absent)
  from assms(3) have "\<not> includesStr (c @ butlast ''{title}'') ''{title}''" by simp
  then have 2: "replaceStr (c @ ''{title}'' @ d) ''{title}'' title
               = c @ getSubstitution ''{title}'' c d title @ d"
    by (intro replaceStr_first) simp_all
  have "refinementPrompt s title = replaceStr (refinePrompt s) ''{title}'' title"
    by (simp add: refinementPrompt_def 1)
  with assms(2) 2 show ?thesis by simp
qed

lemma refinementPrompt_length_only:
  assumes "refinePrompt s = a @ ''{max_length}'' @ b"
    and "\<not> includesStr (a @ ''{max_length'') ''{max_length}''"
    and "\<not> includesStr (a @ toString (maxTitleLength s) @ b) ''{title}''"
  shows "refinementPrompt s title = a @ toString (maxTitleLength s) @ b"
proof -
  from assms(2) have "\<not> includesStr (a @ butlast ''{max_length}'') ''{max_length}''" by simp
  then have 1: "replaceStr (a @ ''{max_length}'' @ b) ''{max_length}'' (toString (maxTitleLength s))
               = a @ toString (maxTitleLength s) @ b"
    by (intro replaceStr_number) simp_all
  show ?thesis unfolding refinementPrompt_def assms(1) 1 using assms(3) by (rule replaceStr_absent)
qed

text \<open>
  C10. Only the first occurrence of a placeholder is substituted in what \<open>generateTitle\<close>
  sends, for a valid configuration whose maximum title length is an integer that
  JavaScript prints in decimal. If \<open>{max_length}\<close> occurs in the initial prompt first behind the text \<open>a\<close>, the
  prompt of the first call is \<open>a\<close>, the number and the unchanged rest \<open>b\<close> of the template,
  whatever further placeholders \<open>b\<close> holds. Every later call carries the refinement
  template treated the same way, first for \<open>{max_length}\<close> and then for \<open>{title}\<close> (whose
  replacement is the expansion of a title as a replacement template), also when only one
  of the two placeholders occurs in the template.
\<close>

theorem placeholders_first_occurrence_only:
  assumes "isConfigurationValid s" and "\<bar>maxTitleLength s\<bar> \<le> 2 ^ 53"
  shows
    "(\<forall>a b. customPrompt s = a @ ''{max_length}'' @ b \<and>
            \<not> includesStr (a @ ''{max_length'') ''{max_length}'' \<longrightarrow>
        (\<exists>rest. calls (generateTitle rq s noteContent w) =
           (a @ toString (maxTitleLength s) @ b, slice0 noteContent (maxContentLength s)) # rest)) \<and>
     (\<forall>a b c d.
        refinePrompt s = a @ ''{max_length}'' @ b \<and>
        \<not> includesStr (a @ ''{max_length'') ''{max_length}'' \<and>
        a @ toString (maxTitleLength s) @ b = c @ ''{title}'' @ d \<and>
        \<not> includesStr (c @ ''{title'') ''{title}'' \<longrightarrow>
        list_all (\<lambda>call. \<exists>title. call = (c @ getSubstitution ''{title}'' c d title @ d, []))
          (tl (calls (generateTitle rq s noteContent w)))) \<and>
     (\<forall>c d.
        \<not> includesStr (refinePrompt s) ''{max_length}'' \<and>
        refinePrompt s = c @ ''{title}'' @ d \<and>
        \<not> includesStr (c @ ''{title'') ''{title}'' \<longrightarrow>
        list_all (\<lambda>call. \<exists>title. call = (c @ getSubstitution ''{title}'' c d title @ d, []))
          (tl (calls (generateTitle rq s noteContent w)))) \<and>
     (\<forall>a b.
        refinePrompt s = a @ ''{max_length}'' @ b \<and>
        \<not> includesStr (a @ ''{max_length'') ''{max_length}'' \<and>
        \<not> includesStr (a @ toString (maxTitleLength s) @ b) ''{title}'' \<longrightarrow>
        list_all (\<lambda>call. call = (a @ toString (maxTitleLength s) @ b, []))
          (tl (calls (generateTitle rq s noteContent w))))"
proof -
  obtain rest where
    shape: "calls (generateTitle rq s noteContent w) =
           (initialPrompt s, slice0 noteContent (maxContentLength s)) # rest"
    and later: "list_all (\<lambda>call. \<exists>title. call = (refinementPrompt s title, [])) rest"
    using generateTitle_calls_shape [OF assms(1), of rq noteContent w] by blast
  from later have later': "\<forall>call \<in> set rest. \<exists>title. call = (refinementPrompt s title, [])"
    by (simp add: list_all_iff)
  show ?thesis
  proof (intro conjI allI impI)
    fix a b
    assume "customPrompt s = a @ ''{max_length}'' @ b \<and>
            \<not> includesStr (a @ ''{max_length'') ''{max_length}''"
    then have "initialPrompt s = a @ toString (maxTitleLength s) @ b"
      using initialPrompt_first by blast
    with shape show "\<exists>rest. calls (generateTitle rq s noteContent w) =
           (a @ toString (maxTitleLength s) @ b, slice0 noteContent (maxContentLength s)) # rest"
      by simp
  next
    fix a b c d
    assume h: "refinePrompt s = a @ ''{max_length}'' @ b \<and>
        \<not> includesStr (a @ ''{max_length'') ''{max_length}'' \<and>
        a @ toString (maxTitleLength s) @ b = c @ ''{title}'' @ d \<and>
        \<not> includesStr (c @ ''{title'') ''{title}''"
    then have "\<And>title. refinementPrompt s title = c @ getSubstitution ''{title}'' c d title @ d"
      using refinementPrompt_both by blast
    with later' shape
    show "list_all (\<lambda>call. \<exists>title. call = (c @ getSubstitution ''{title}'' c d title @ d, []))
          (tl (calls (generateTitle rq s noteContent w)))"
      by (simp add: list_all_iff)
  next
    fix c d
    assume h: "\<not> includesStr (refinePrompt s) ''{max_length}'' \<and>
        refinePrompt s = c @ ''{title}'' @ d \<and>
        \<not> includesStr (c @ ''{title'') ''{title}''"
    then have "\<And>title. refinementPrompt s title = c @ getSubstitution ''{title}'' c d title @ d"
      using refinementPrompt_title_only by blast
    with later' shape
    show "list_all (\<lambda>call. \<exists>title. call = (c @ getSubstitution ''{title}'' c d title @ d, []))
          (tl (calls (generateTitle rq s noteContent w)))"
      by (simp add: list_all_iff)
  next
    fix a b
    assume h: "refinePrompt s = a @ ''{max_length}'' @ b \<and>
        \<not> includesStr (a @ ''{max_length'') ''{max_length}'' \<and>
        \<not> includesStr (a @ toString (maxTitleLength s) @ b) ''{title}''"
    then have "\<And>title. refinementPrompt s title = a @ toString (maxTitleLength s) @ b"
      using refinementPrompt_length_only by blast
    with later' shape
    show "list_all (\<lambda>call. call = (a @ toString (maxTitleLength s) @ b, []))
          (tl (calls (generateTitle rq s noteContent w)))"
      by (auto simp: list_all_iff)
  qed
qed

theorem placeholders_first_occurrence_only_witness:
  "isConfigurationValid repeating \<and> \<bar>maxTitleLength repeating\<bar> \<le> 2 ^ 53 \<and>
   hd (calls (generateTitle (scripted [rambling, ''Short'']) repeating ''Some note'' [])) =
     (''Title of at most 60 characters ({max_length}!)'', ''Some note'') \<and>
   tl (calls (generateTitle (scripted [rambling, ''Short'']) repeating ''Some note'' [])) =
     [(''Shorten An Unreasonably Long Working Title That Keeps Going Well Past Sixty Characters to 60, not {max_length}; again: {title}'', [])] \<and>
   (\<exists>title.
      ''Shorten An Unreasonably Long Working Title That Keeps Going Well Past Sixty Characters to 60, not {max_length}; again: {title}'' =
      ''Shorten '' @ getSubstitution ''{title}'' ''Shorten ''
         '' to 60, not {max_length}; again: {title}'' title
       @ '' to 60, not {max_length}; again: {title}'')"
proof -
  let ?out = "generateTitle (scripted [rambling, ''Short'']) repeating ''Some note'' []"
  have v: "isConfigurationValid repeating" by code_simp
  have r: "\<bar>maxTitleLength repeating\<bar> \<le> 2 ^ 53"
    by (simp add: repeating_def configured_def DEFAULT_SETTINGS_def)
  note first_occ = placeholders_first_occurrence_only
    [OF v r, of "scripted [rambling, ''Short'']" "''Some note''" "[]"]
  have a1: "customPrompt repeating =
              ''Title of at most '' @ ''{max_length}'' @ '' characters ({max_length}!)'' \<and>
            \<not> includesStr (''Title of at most '' @ ''{max_length'') ''{max_length}''"
    by code_simp
  have n: "toString (maxTitleLength repeating) = ''60''" by code_simp
  have c: "slice0 ''Some note'' (maxContentLength repeating) = ''Some note''" by code_simp
  from first_occ a1 obtain rest where
    "calls ?out = (''Title of at most '' @ toString (maxTitleLength repeating)
                     @ '' characters ({max_length}!)'',
                   slice0 ''Some note'' (maxContentLength repeating)) # rest"
    by blast
  then have h: "hd (calls ?out) = (''Title of at most 60 characters ({max_length}!)'', ''Some note'')"
    by (simp add: n c)
  have t: "tl (calls ?out) =
     [(''Shorten An Unreasonably Long Working Title That Keeps Going Well Past Sixty Characters to 60, not {max_length}; again: {title}'', [])]"
    by code_simp
  have a2: "refinePrompt repeating =
              ''Shorten {title} to '' @ ''{max_length}'' @ '', not {max_length}; again: {title}'' \<and>
      \<not> includesStr (''Shorten {title} to '' @ ''{max_length'') ''{max_length}'' \<and>
      ''Shorten {title} to '' @ toString (maxTitleLength repeating)
          @ '', not {max_length}; again: {title}''
         = ''Shorten '' @ ''{title}'' @ '' to 60, not {max_length}; again: {title}'' \<and>
      \<not> includesStr (''Shorten '' @ ''{title'') ''{title}''"
    by code_simp
  from first_occ a2
  have "list_all (\<lambda>call. \<exists>title. call =
            (''Shorten '' @ getSubstitution ''{title}'' ''Shorten ''
                 '' to 60, not {max_length}; again: {title}'' title
               @ '' to 60, not {max_length}; again: {title}'', []))
          (tl (calls ?out))"
    by blast
  then have e: "\<exists>title.
      ''Shorten An Unreasonably Long Working Title That Keeps Going Well Past Sixty Characters to 60, not {max_length}; again: {title}'' =
      ''Shorten '' @ getSubstitution ''{title}'' ''Shorten ''
         '' to 60, not {max_length}; again: {title}'' title
       @ '' to 60, not {max_length}; again: {title}''"
    unfolding t by simp
  from v r h t e show ?thesis by blast
qed

section \<open>Properties of the Validation Service\<close>

lemma typeOf_string: "typeOf v = ''string'' \<longleftrightarrow> (\<exists>s. v = JStr s)"
  by (cases v) simp_all

lemma validateApiKey_returns: "\<exists>r. validateApiKey key provider = Inr r"
  by (cases key) (simp_all add: validateApiKey_def bindE_def Let_def)

lemma validateModelName_returns: "\<exists>r. validateModelName name provider = Inr r"
  by (cases name) (simp_all add: validateModelName_def bindE_def Let_def)

lemma validatePrompt_returns: "\<exists>r. validatePrompt prompt isRefinement = Inr r"
  by (cases prompt) (simp_all add: validatePrompt_def bindE_def Let_def)

lemma validateTemperature_returns: "\<exists>r. validateTemperature t = Inr r"
  by (cases t) (simp_all add: validateTemperature_def Let_def)

lemma validateMaxTitleLength_returns: "\<exists>r. validateMaxTitleLength n = Inr r"
  by (cases n) (simp_all add: validateMaxTitleLength_def Let_def)

lemma validateMaxContentLength_returns: "\<exists>r. validateMaxContentLength n = Inr r"
  by (cases n) (simp_all add: validateMaxContentLength_def Let_def)

lemma bindE_returns:
  "\<exists>r. x = Inr r \<Longrightarrow> (\<And>v. \<exists>r. f v = Inr r) \<Longrightarrow> \<exists>r. bindE x f = Inr r"
  by (auto simp: bindE_def)

lemma getApiKeyField_known:
  "provider \<in> {''openai'', ''anthropic'', ''google''} \<Longrightarrow> \<exists>f. getApiKeyField provider = Inr f"
  by (auto simp: getApiKeyField_def)

lemma getModelField_known:
  "provider \<in> {''openai'', ''anthropic'', ''google''} \<Longrightarrow> \<exists>f. getModelField provider = Inr f"
  by (auto simp: getModelField_def)

lemma validateSettings_known:
  assumes "aiProvider s \<in> {''openai'', ''anthropic'', ''google''}"
  shows "\<exists>r. validateSettings s = Inr r"
  unfolding validateSettings_def Let_def
  by (intro bindE_returns getApiKeyField_known getModelField_known assms
      validateApiKey_returns validateModelName_returns validatePrompt_returns
      validateTemperature_returns validateMaxTitleLength_returns
      validateMaxContentLength_returns)
     (auto intro!: bindE_returns validateApiKey_returns validateModelName_returns)

lemma validateSettings_unknown:
  "aiProvider s \<notin> {''openai'', ''anthropic'', ''google''} \<Longrightarrow>
     validateSettings s = Inl (unknownProvider (aiProvider s))"
  by (simp add: validateSettings_def Let_def bindE_def getApiKeyField_def)

lemma valid_emptyResult: "valid emptyResult"
  by (simp add: emptyResult_def)

lemma valid_pushError: "\<not> valid (pushError m r)"
  by (simp add: pushError_def)

lemma valid_pushWarning: "valid (pushWarning m r) = valid r"
  by (simp add: pushWarning_def)

lemma valid_errorIf: "valid (errorIf c m r) = (valid r \<and> \<not> c)"
  by (simp add: errorIf_def pushError_def)

lemma valid_warnIf: "valid (warnIf c m r) = valid r"
  by (simp add: warnIf_def pushWarning_def)

lemmas valid_simps = valid_emptyResult valid_pushError valid_pushWarning valid_errorIf valid_warnIf

lemma returnsValid_Inr: "returnsValid (Inr r) = valid r"
  by (simp add: returnsValid_def)

lemma returnsInvalid_Inr: "returnsInvalid (Inr r) = (\<not> valid r)"
  by (simp add: returnsInvalid_def)

lemma validateApiKey_valid_iff:
  "returnsValid (validateApiKey (JStr key) provider) \<longleftrightarrow>
     API_KEY_MIN_LENGTH \<le> length (trim key) \<and> length (trim key) \<le> API_KEY_MAX_LENGTH"
proof (cases "trim key = []")
  case True
  then show ?thesis
    by (simp add: validateApiKey_def bindE_def returnsValid_Inr valid_simps API_KEY_MIN_LENGTH_def)
next
  case False
  then have "key \<noteq> []" using trim_Nil by auto
  with False show ?thesis
    by (simp add: validateApiKey_def bindE_def Let_def returnsValid_Inr valid_simps not_less)
qed

lemma validateApiKey_invalid_iff:
  "returnsInvalid (validateApiKey (JStr key) provider) \<longleftrightarrow>
     \<not> (API_KEY_MIN_LENGTH \<le> length (trim key) \<and> length (trim key) \<le> API_KEY_MAX_LENGTH)"
proof -
  obtain r where r: "validateApiKey (JStr key) provider = Inr r"
    using validateApiKey_returns by blast
  with validateApiKey_valid_iff [of key provider] show ?thesis
    by (simp add: returnsValid_Inr returnsInvalid_Inr)
qed

lemma validateMaxTitleLength_int:
  "returnsValid (validateMaxTitleLength (JNum (Fin (of_int n)))) \<longleftrightarrow>
     MIN_MAX_LENGTH \<le> n \<and> n \<le> MAX_MAX_LENGTH"
  by (simp add: validateMaxTitleLength_def Let_def returnsValid_Inr valid_simps not_less)

lemma validateMaxTitleLength_int_invalid:
  "returnsInvalid (validateMaxTitleLength (JNum (Fin (of_int n)))) \<longleftrightarrow>
     \<not> (MIN_MAX_LENGTH \<le> n \<and> n \<le> MAX_MAX_LENGTH)"
  by (simp add: validateMaxTitleLength_def Let_def returnsInvalid_Inr valid_simps not_less)

lemma validateMaxContentLength_int:
  "returnsValid (validateMaxContentLength (JNum (Fin (of_int n)))) \<longleftrightarrow>
     MIN_MAX_CONTENT_LENGTH \<le> n \<and> n \<le> MAX_MAX_CONTENT_LENGTH"
  by (simp add: validateMaxContentLength_def Let_def returnsValid_Inr valid_simps not_less)

lemma validateMaxContentLength_int_invalid:
  "returnsInvalid (validateMaxContentLength (JNum (Fin (of_int n)))) \<longleftrightarrow>
     \<not> (MIN_MAX_CONTENT_LENGTH \<le> n \<and> n \<le> MAX_MAX_CONTENT_LENGTH)"
  by (simp add: validateMaxContentLength_def Let_def returnsInvalid_Inr valid_simps not_less)

text \<open>
  C7 (as the code has it). The bounds are inclusive. An API key whose length after
  trimming is 10 or 200 is valid, one of 9 or 201 is not; a maximum title length of 10 or
  500 is valid, 9 or 501 is not; a maximum content length of 100 or 10000 is valid, 99 or
  10001 is not.
\<close>

theorem length_bounds_inclusive:
  "(\<forall>key provider. length (trim key) = 10 \<or> length (trim key) = 200 \<longrightarrow>
      returnsValid (validateApiKey (JStr key) provider)) \<and>
   (\<forall>key provider. length (trim key) = 9 \<or> length (trim key) = 201 \<longrightarrow>
      returnsInvalid (validateApiKey (JStr key) provider)) \<and>
   returnsValid (validateMaxTitleLength (JNum (Fin 10))) \<and>
   returnsValid (validateMaxTitleLength (JNum (Fin 500))) \<and>
   returnsInvalid (validateMaxTitleLength (JNum (Fin 9))) \<and>
   returnsInvalid (validateMaxTitleLength (JNum (Fin 501))) \<and>
   returnsValid (validateMaxContentLength (JNum (Fin 100))) \<and>
   returnsValid (validateMaxContentLength (JNum (Fin 10000))) \<and>
   returnsInvalid (validateMaxContentLength (JNum (Fin 99))) \<and>
   returnsInvalid (validateMaxContentLength (JNum (Fin 10001)))"
proof -
  have k: "(\<forall>key provider. length (trim key) = 10 \<or> length (trim key) = 200 \<longrightarrow>
      returnsValid (validateApiKey (JStr key) provider)) \<and>
   (\<forall>key provider. length (trim key) = 9 \<or> length (trim key) = 201 \<longrightarrow>
      returnsInvalid (validateApiKey (JStr key) provider))"
    by (auto simp: validateApiKey_valid_iff validateApiKey_invalid_iff
        API_KEY_MIN_LENGTH_def API_KEY_MAX_LENGTH_def)
  have t: "returnsValid (validateMaxTitleLength (JNum (Fin 10))) \<and>
   returnsValid (validateMaxTitleLength (JNum (Fin 500))) \<and>
   returnsInvalid (validateMaxTitleLength (JNum (Fin 9))) \<and>
   returnsInvalid (validateMaxTitleLength (JNum (Fin 501)))"
    using validateMaxTitleLength_int [of 10] validateMaxTitleLength_int [of 500]
      validateMaxTitleLength_int_invalid [of 9] validateMaxTitleLength_int_invalid [of 501]
    by (simp add: MIN_MAX_LENGTH_def MAX_MAX_LENGTH_def)
  have c: "returnsValid (validateMaxContentLength (JNum (Fin 100))) \<and>
   returnsValid (validateMaxContentLength (JNum (Fin 10000))) \<and>
   returnsInvalid (validateMaxContentLength (JNum (Fin 99))) \<and>
   returnsInvalid (validateMaxContentLength (JNum (Fin 10001)))"
    using validateMaxContentLength_int [of 100] validateMaxContentLength_int [of 10000]
      validateMaxContentLength_int_invalid [of 99] validateMaxContentLength_int_invalid [of 10001]
    by (simp add: MIN_MAX_CONTENT_LENGTH_def MAX_MAX_CONTENT_LENGTH_def)
  from k t c show ?thesis by blast
qed

theorem length_bounds_inclusive_witness:
  "returnsValid (validateApiKey (JStr ''sk-4567890'') (JStr ''openai'')) \<and>
   returnsInvalid (validateApiKey (JStr ''sk-456789'') (JStr ''openai''))"
proof -
  have a: "length (trim ''sk-4567890'') = 10" by code_simp
  have b: "length (trim ''sk-456789'') = 9" by code_simp
  from a b length_bounds_inclusive show ?thesis by blast
qed

text \<open>
  C7 as the specification states it fails for the length of the key itself: a key of
  10 characters that ends with a blank is invalid, and a key of 201 characters of which
  191 are trailing blanks is valid.
\<close>

theorem apiKey_untrimmed_length_counterexample:
  "length ''123456789 '' = 10 \<and>
   returnsInvalid (validateApiKey (JStr ''123456789 '') (JStr ''openai'')) \<and>
   length (''sk-4567890'' @ replicate 191 CHR '' '') = 201 \<and>
   returnsValid (validateApiKey (JStr (''sk-4567890'' @ replicate 191 CHR '' '')) (JStr ''openai''))"
proof -
  have a: "length (trim ''123456789 '') = 9" by code_simp
  have b: "length (trim (''sk-4567890'' @ replicate 191 CHR '' '')) = 10" by code_simp
  from a b show ?thesis
    by (simp add: validateApiKey_valid_iff validateApiKey_invalid_iff
        API_KEY_MIN_LENGTH_def API_KEY_MAX_LENGTH_def)
qed

subsection \<open>Validity and the list of errors\<close>

lemma consistent_empty: "consistent emptyResult"
  by (simp add: consistent_def emptyResult_def)

lemma consistent_pushError: "consistent (pushError m r)"
  by (simp add: consistent_def pushError_def)

lemma consistent_pushWarning: "consistent r \<Longrightarrow> consistent (pushWarning m r)"
  by (simp add: consistent_def pushWarning_def)

lemma consistent_errorIf: "consistent r \<Longrightarrow> consistent (errorIf c m r)"
  by (simp add: errorIf_def consistent_pushError)

lemma consistent_warnIf: "consistent r \<Longrightarrow> consistent (warnIf c m r)"
  by (simp add: warnIf_def consistent_pushWarning)

lemma consistent_absorb: "consistent sub \<Longrightarrow> consistent r \<Longrightarrow> consistent (absorb sub r)"
  by (auto simp: consistent_def absorb_def)

lemma consistent_checkPlaceholders:
  "consistent r \<Longrightarrow> consistent (checkPlaceholders p ps r)"
  by (induction ps arbitrary: r) (simp_all add: consistent_errorIf)

lemmas consistent_intros =
  consistent_empty consistent_pushError consistent_pushWarning consistent_errorIf
  consistent_warnIf consistent_absorb consistent_checkPlaceholders

lemma consistent_validateApiKey: "validateApiKey k p = Inr r \<Longrightarrow> consistent r"
  by (cases k)
     (auto simp: validateApiKey_def bindE_def Let_def split: if_splits intro!: consistent_intros)

lemma consistent_validateModelName: "validateModelName m p = Inr r \<Longrightarrow> consistent r"
  by (cases m)
     (auto simp: validateModelName_def bindE_def Let_def split: if_splits intro!: consistent_intros)

lemma consistent_validatePrompt: "validatePrompt p b = Inr r \<Longrightarrow> consistent r"
  by (cases p)
     (auto simp: validatePrompt_def bindE_def Let_def split: if_splits intro!: consistent_intros)

lemma consistent_validateTemperature: "validateTemperature t = Inr r \<Longrightarrow> consistent r"
  by (cases t)
     (auto simp: validateTemperature_def Let_def split: if_splits intro!: consistent_intros)

lemma consistent_validateMaxTitleLength: "validateMaxTitleLength n = Inr r \<Longrightarrow> consistent r"
  by (cases n)
     (auto simp: validateMaxTitleLength_def Let_def split: if_splits intro!: consistent_intros)

lemma consistent_validateMaxContentLength: "validateMaxContentLength n = Inr r \<Longrightarrow> consistent r"
  by (cases n)
     (auto simp: validateMaxContentLength_def Let_def split: if_splits intro!: consistent_intros)

lemma bindE_Inr_iff: "bindE x f = Inr r \<longleftrightarrow> (\<exists>v. x = Inr v \<and> f v = Inr r)"
  by (cases x) (simp_all add: bindE_def)

lemmas consistent_validators =
  consistent_validateApiKey consistent_validateModelName consistent_validatePrompt
  consistent_validateTemperature consistent_validateMaxTitleLength
  consistent_validateMaxContentLength

lemma consistent_first_stage:
  assumes "(if key \<noteq> [] then
               bindE (validateApiKey (JStr key) p)
                 (\<lambda>apiKeyValidation. Inr (absorb apiKeyValidation emptyResult))
             else Inr (pushError m emptyResult)) = Inr r"
  shows "consistent r"
  using assms
  by (auto simp: bindE_Inr_iff split: if_splits
      intro!: consistent_intros intro: consistent_validateApiKey)

lemma consistent_second_stage:
  assumes "consistent r1"
    and "(if model \<noteq> [] then
               bindE (validateModelName (JStr model) p)
                 (\<lambda>modelValidation. Inr (absorb modelValidation r1))
             else Inr (pushError m r1)) = Inr r"
  shows "consistent r"
  using assms
  by (auto simp: bindE_Inr_iff split: if_splits
      intro!: consistent_intros intro: consistent_validateModelName)

lemma consistent_validateSettings:
  assumes "validateSettings s = Inr r"
  shows "consistent r"
proof -
  from assms obtain r1 r2 v3 v4 v5 v6 v7 field modelField where
    a: "(if settingsField s field \<noteq> [] then
               bindE (validateApiKey (JStr (settingsField s field)) (JStr (aiProvider s)))
                 (\<lambda>apiKeyValidation. Inr (absorb apiKeyValidation emptyResult))
             else Inr (pushError (toUpperCaseAscii (aiProvider s) @ '' API key is required'')
                         emptyResult)) = Inr r1"
    and b: "(if settingsField s modelField \<noteq> [] then
               bindE (validateModelName (JStr (settingsField s modelField)) (JStr (aiProvider s)))
                 (\<lambda>modelValidation. Inr (absorb modelValidation r1))
             else Inr (pushError (toUpperCaseAscii (aiProvider s) @ '' model is required'')
                         r1)) = Inr r2"
    and c: "validatePrompt (JStr (customPrompt s)) JUndefined = Inr v3"
      "validatePrompt (JStr (refinePrompt s)) (JBool True) = Inr v4"
      "validateTemperature (JNum (temperature s)) = Inr v5"
      "validateMaxTitleLength (JNum (Fin (of_int (maxTitleLength s)))) = Inr v6"
      "validateMaxContentLength (JNum (Fin (of_int (maxContentLength s)))) = Inr v7"
    and r: "r = absorb v7 (absorb v6 (absorb v5 (absorb v4 (absorb v3 r2))))"
    unfolding validateSettings_def Let_def bindE_Inr_iff by blast
  from a have "consistent r1" by (rule consistent_first_stage)
  then have "consistent r2" using b by (rule consistent_second_stage)
  with c show ?thesis unfolding r
    by (intro consistent_absorb) (auto dest: consistent_validators)
qed

lemma consistent_validateApiResponse:
  "validateApiResponse j p = Inr r \<Longrightarrow> consistent r"
  unfolding validateApiResponse_def
  by (auto simp: bindE_Inr_iff split: if_splits intro!: consistent_intros)

lemma outsider_provider: "aiProvider outsider = ''mistral''"
  by (simp add: outsider_def)

lemma configured_provider: "aiProvider configured = ''openai''"
  by (simp add: configured_def DEFAULT_SETTINGS_def)

text \<open>
  C6 (as the code has it). Each of the six validators returns a validation result for
  every value it is given, of whatever type. \<open>validateSettings\<close> returns a validation
  result for the three provider tags of the enumeration; for every other tag the
  field-name lookup throws the unknown-provider error, and that is what
  \<open>validateSettings\<close> ends with.
\<close>

theorem validators_return:
  "(\<exists>r. validateApiKey key provider = Inr r) \<and>
   (\<exists>r. validateModelName name provider = Inr r) \<and>
   (\<exists>r. validatePrompt prompt isRefinement = Inr r) \<and>
   (\<exists>r. validateTemperature t = Inr r) \<and>
   (\<exists>r. validateMaxTitleLength n = Inr r) \<and>
   (\<exists>r. validateMaxContentLength m = Inr r) \<and>
   (aiProvider s \<in> {''openai'', ''anthropic'', ''google''} \<longrightarrow>
      (\<exists>r. validateSettings s = Inr r)) \<and>
   (aiProvider s \<notin> {''openai'', ''anthropic'', ''google''} \<longrightarrow>
      validateSettings s = Inl (unknownProvider (aiProvider s)))"
  using validateApiKey_returns [of key provider] validateModelName_returns [of name provider]
    validatePrompt_returns [of prompt isRefinement] validateTemperature_returns [of t]
    validateMaxTitleLength_returns [of n] validateMaxContentLength_returns [of m]
    validateSettings_known [of s] validateSettings_unknown [of s]
  by blast

theorem validators_return_witness:
  "validateApiKey (JNum (Fin 42)) JNull = Inr (pushError ''API key is required'' emptyResult) \<and>
   \<not> isl (validateSettings configured) \<and>
   validateSettings outsider =
     Inl (TitleGeneratorError ''Unknown provider: mistral'' ''UNKNOWN_PROVIDER''
            ''Unknown AI provider'')"
proof -
  note inst = validators_return [where key = "JNum (Fin 42)" and provider = JNull and s = configured]
  note inst2 = validators_return [where s = outsider]
  from inst obtain r where r: "validateApiKey (JNum (Fin 42)) JNull = Inr r" by blast
  have "validateApiKey (JNum (Fin 42)) JNull = Inr (pushError ''API key is required'' emptyResult)"
    using r by (simp add: validateApiKey_def)
  moreover have "aiProvider configured \<in> {''openai'', ''anthropic'', ''google''}"
    by (simp add: configured_provider)
  with inst have "\<exists>r. validateSettings configured = Inr r" by blast
  then have "\<not> isl (validateSettings configured)" by auto
  moreover have "aiProvider outsider \<notin> {''openai'', ''anthropic'', ''google''}"
    by (simp add: outsider_provider)
  with inst2 have "validateSettings outsider = Inl (unknownProvider (aiProvider outsider))"
    by blast
  then have "validateSettings outsider =
     Inl (TitleGeneratorError ''Unknown provider: mistral'' ''UNKNOWN_PROVIDER''
            ''Unknown AI provider'')"
    by (simp add: outsider_provider unknownProvider_def)
  ultimately show ?thesis by blast
qed

text \<open>
  C6 as the specification states it fails: for the tag \<open>mistral\<close> no validation result is
  returned.
\<close>

theorem validateSettings_unknown_provider_counterexample:
  "validateSettings outsider =
     Inl (TitleGeneratorError ''Unknown provider: mistral'' ''UNKNOWN_PROVIDER''
            ''Unknown AI provider'')"
  using validateSettings_unknown [of outsider]
  by (simp add: outsider_provider unknownProvider_def)

text \<open>
  C8. Every result of the validation service is valid exactly when its list of errors is
  empty; warnings do not count: a temperature of 0 is valid and carries a warning.
\<close>

theorem valid_iff_no_errors:
  "(\<exists>r. validateApiKey key provider = Inr r \<and> (valid r \<longleftrightarrow> errors r = [])) \<and>
   (\<exists>r. validateModelName name provider = Inr r \<and> (valid r \<longleftrightarrow> errors r = [])) \<and>
   (\<exists>r. validatePrompt prompt isRefinement = Inr r \<and> (valid r \<longleftrightarrow> errors r = [])) \<and>
   (\<exists>r. validateTemperature t = Inr r \<and> (valid r \<longleftrightarrow> errors r = [])) \<and>
   (\<exists>r. validateMaxTitleLength n = Inr r \<and> (valid r \<longleftrightarrow> errors r = [])) \<and>
   (\<exists>r. validateMaxContentLength m = Inr r \<and> (valid r \<longleftrightarrow> errors r = [])) \<and>
   (\<forall>r. validateSettings settings = Inr r \<longrightarrow> (valid r \<longleftrightarrow> errors r = [])) \<and>
   (\<forall>r. validateApiResponse response tag = Inr r \<longrightarrow> (valid r \<longleftrightarrow> errors r = [])) \<and>
   (\<exists>r. validateTemperature (JNum (Fin 0)) = Inr r \<and> valid r \<and> warnings r \<noteq> [])"
proof -
  have w: "\<exists>r. validateTemperature (JNum (Fin 0)) = Inr r \<and> valid r \<and> warnings r \<noteq> []"
    by (simp add: validateTemperature_def Let_def errorIf_def pushWarning_def emptyResult_def
        MIN_TEMPERATURE_def MAX_TEMPERATURE_def)
  have each: "\<And>x. \<exists>r. x = Inr r \<Longrightarrow> (\<And>r. x = Inr r \<Longrightarrow> consistent r) \<Longrightarrow>
      \<exists>r. x = Inr r \<and> (valid r \<longleftrightarrow> errors r = [])"
    unfolding consistent_def by blast
  have 1: "\<exists>r. validateApiKey key provider = Inr r \<and> (valid r \<longleftrightarrow> errors r = [])"
    by (rule each [OF validateApiKey_returns consistent_validateApiKey])
  have 2: "\<exists>r. validateModelName name provider = Inr r \<and> (valid r \<longleftrightarrow> errors r = [])"
    by (rule each [OF validateModelName_returns consistent_validateModelName])
  have 3: "\<exists>r. validatePrompt prompt isRefinement = Inr r \<and> (valid r \<longleftrightarrow> errors r = [])"
    by (rule each [OF validatePrompt_returns consistent_validatePrompt])
  have 4: "\<exists>r. validateTemperature t = Inr r \<and> (valid r \<longleftrightarrow> errors r = [])"
    by (rule each [OF validateTemperature_returns consistent_validateTemperature])
  have 5: "\<exists>r. validateMaxTitleLength n = Inr r \<and> (valid r \<longleftrightarrow> errors r = [])"
    by (rule each [OF validateMaxTitleLength_returns consistent_validateMaxTitleLength])
  have 6: "\<exists>r. validateMaxContentLength m = Inr r \<and> (valid r \<longleftrightarrow> errors r = [])"
    by (rule each [OF validateMaxContentLength_returns consistent_validateMaxContentLength])
  have 7: "\<forall>r. validateSettings settings = Inr r \<longrightarrow> (valid r \<longleftrightarrow> errors r = [])"
    using consistent_validateSettings [of settings] unfolding consistent_def by blast
  have 8: "\<forall>r. validateApiResponse response tag = Inr r \<longrightarrow> (valid r \<longleftrightarrow> errors r = [])"
    using consistent_validateApiResponse [of response tag] unfolding consistent_def by blast
  from 1 2 3 4 5 6 7 8 w show ?thesis by blast
qed

theorem valid_iff_no_errors_witness:
  "errors (pushError ''API key is required'' emptyResult) \<noteq> [] \<and>
   (valid (projr (validateSettings configured))
      \<longleftrightarrow> errors (projr (validateSettings configured)) = []) \<and>
   errors (pushError ''API response is empty'' emptyResult) \<noteq> []"
proof -
  note inst = valid_iff_no_errors [where key = JNull and provider = "JStr ''openai''"
      and settings = configured and response = JNull and tag = "''openai''"]
  have "validateApiKey JNull (JStr ''openai'') = Inr (pushError ''API key is required'' emptyResult)"
    by (simp add: validateApiKey_def)
  with inst have "valid (pushError ''API key is required'' emptyResult)
      \<longleftrightarrow> errors (pushError ''API key is required'' emptyResult) = []" by auto
  then have k: "errors (pushError ''API key is required'' emptyResult) \<noteq> []"
    by (simp add: valid_pushError)
  obtain r where "validateSettings configured = Inr r"
    using validateSettings_known [of configured] by (auto simp: configured_provider)
  then have s: "validateSettings configured = Inr (projr (validateSettings configured))" by simp
  with inst have c: "valid (projr (validateSettings configured))
      \<longleftrightarrow> errors (projr (validateSettings configured)) = []" by blast
  have "validateApiResponse JNull ''openai'' = Inr (pushError ''API response is empty'' emptyResult)"
    by (simp add: validateApiResponse_def)
  with inst have "valid (pushError ''API response is empty'' emptyResult)
      \<longleftrightarrow> errors (pushError ''API response is empty'' emptyResult) = []" by blast
  then have a: "errors (pushError ''API response is empty'' emptyResult) \<noteq> []"
    by (simp add: valid_pushError)
  from k c a show ?thesis by blast
qed


end
